theory Spec2Isabelle
  imports Complex_Main
begin

section \<open>JavaScript values\<close>

text \<open>
  The controller works on JavaScript numbers. A field that the code guards with
  \<^verbatim>\<open>x || d\<close>, \<^verbatim>\<open>typeof x !== 'number'\<close> or \<^verbatim>\<open>isNaN(x)\<close> is a \<open>jsval\<close>: a finite number,
  \<open>NaN\<close>, \<open>undefined\<close> or \<open>null\<close>. Finite doubles are read as real numbers (IEEE rounding
  and the infinities are not part of the model); strings and objects in numeric fields
  are left out, Mongoose casts them away before the controller sees a document.
\<close>

datatype jsval = Num real | NaN | Undefined | Null

text \<open>\<^verbatim>\<open>typeof x === 'number'\<close>\<close>

fun isNumberType :: "jsval \<Rightarrow> bool" where
  "isNumberType (Num x) = True"
| "isNumberType NaN = True"
| "isNumberType Undefined = False"
| "isNumberType Null = False"

text \<open>\<^verbatim>\<open>isNaN(x)\<close>: \<open>undefined\<close> converts to NaN, \<open>null\<close> converts to 0.\<close>

fun isNaN :: "jsval \<Rightarrow> bool" where
  "isNaN (Num x) = False"
| "isNaN NaN = True"
| "isNaN Undefined = True"
| "isNaN Null = False"

text \<open>Truthiness: 0, NaN, undefined and null are falsy.\<close>

fun truthy :: "jsval \<Rightarrow> bool" where
  "truthy (Num x) = (x \<noteq> 0)"
| "truthy NaN = False"
| "truthy Undefined = False"
| "truthy Null = False"

text \<open>\<^verbatim>\<open>x || d\<close> for a numeric default \<open>d\<close>; the result is a finite number.\<close>

fun orElse :: "jsval \<Rightarrow> real \<Rightarrow> real" where
  "orElse (Num x) d = (if x \<noteq> 0 then x else d)"
| "orElse NaN d = d"
| "orElse Undefined d = d"
| "orElse Null d = d"

text \<open>
  The relational operators convert their operands to numbers (\<open>undefined\<close> to NaN,
  \<open>null\<close> to 0); a comparison with NaN is false.
\<close>

fun toNumber :: "jsval \<Rightarrow> real option" where
  "toNumber (Num x) = Some x"
| "toNumber NaN = None"
| "toNumber Undefined = None"
| "toNumber Null = Some 0"

definition jsGreater :: "jsval \<Rightarrow> real \<Rightarrow> bool" where
  "jsGreater v c = (case toNumber v of None \<Rightarrow> False | Some x \<Rightarrow> x > c)"

definition jsLess :: "jsval \<Rightarrow> real \<Rightarrow> bool" where
  "jsLess v c = (case toNumber v of None \<Rightarrow> False | Some x \<Rightarrow> x < c)"

section \<open>Incident analysis (services/trafficAI.js)\<close>

text \<open>
  What \<open>analyzeIncidentImpact\<close> gets from the generative model: no API key is
  configured, the call or the parsing of its answer throws, or the answer parses to an
  object whose \<open>fixedDelayMinutes\<close> and \<open>trafficMultiplier\<close> are the two given values
  (\<open>Undefined\<close> for a field the answer does not have).
\<close>

datatype aiOutcome = NoApiKey | AiFailed | AiParsed jsval jsval

record incidentAnalysis =
  aiSuccess :: bool
  fixedDelayMinutes :: jsval
  delayMinutes :: jsval
  trafficMultiplier :: jsval

text \<open>
  Lines 171-180 of trafficAI.js: values above 300 are capped at 300, values below 30
  are replaced by 60, and \<open>delayMinutes\<close> is set to the result. Without a key, or when the
  call throws, both fields are 60. \<open>analyzeOutcome\<close> is \<open>analyzeIncidentImpact\<close> from the
  model's answer on.
\<close>

definition adjustDelay :: "jsval \<Rightarrow> jsval" where
  "adjustDelay v =
     (let v1 = (if jsGreater v 300 then Num 300 else v);
          v2 = (if jsLess v1 30 then Num 60 else v1)
      in v2)"

fun analyzeOutcome :: "aiOutcome \<Rightarrow> incidentAnalysis" where
  "analyzeOutcome NoApiKey =
     \<lparr>aiSuccess = False, fixedDelayMinutes = Num 60, delayMinutes = Num 60,
      trafficMultiplier = Undefined\<rparr>"
| "analyzeOutcome AiFailed =
     \<lparr>aiSuccess = False, fixedDelayMinutes = Num 60, delayMinutes = Num 60,
      trafficMultiplier = Undefined\<rparr>"
| "analyzeOutcome (AiParsed v m) =
     \<lparr>aiSuccess = True, fixedDelayMinutes = adjustDelay v, delayMinutes = adjustDelay v,
      trafficMultiplier = m\<rparr>"

text \<open>
  Line 624 of the controller:
  \<^verbatim>\<open>const fixedDelayMinutes = incidentAnalysis.fixedDelayMinutes || 60\<close>.
\<close>

definition appliedDelay :: "aiOutcome \<Rightarrow> real" where
  "appliedDelay out = orElse (fixedDelayMinutes (analyzeOutcome out)) 60"


section \<open>Distance provider: the geometric fallback (controller lines 124-147, 520-539)\<close>

definition SPEED_KMH :: real where "SPEED_KMH = 60"
definition ROAD_FACTOR :: real where "ROAD_FACTOR = 14 / 10"
definition SERVICE_TIME_MINUTES :: real where "SERVICE_TIME_MINUTES = 15"

record location =
  locId :: string
  locName :: string
  latitude :: jsval
  longitude :: jsval
  demand :: jsval
  isDepot :: bool

text \<open>The number held by a value that passed the \<open>typeof\<close> and \<open>isNaN\<close> tests.\<close>

fun numberOf :: "jsval \<Rightarrow> real" where
  "numberOf (Num x) = x"
| "numberOf NaN = 0"
| "numberOf Undefined = 0"
| "numberOf Null = 0"

text \<open>\<^verbatim>\<open>Math.atan2(y, x)\<close> on real numbers.\<close>

definition atan2 :: "real \<Rightarrow> real \<Rightarrow> real" where
  "atan2 y x =
     (if x > 0 then arctan (y / x)
      else if x < 0 then (if y \<ge> 0 then arctan (y / x) + pi else arctan (y / x) - pi)
      else if y > 0 then pi / 2
      else if y < 0 then - (pi / 2)
      else 0)"

text \<open>The quantity \<open>a\<close> of \<open>calculateDistance\<close> (lines 529-535).\<close>

definition haversineA :: "real \<Rightarrow> real \<Rightarrow> real \<Rightarrow> real \<Rightarrow> real" where
  "haversineA lat1 lon1 lat2 lon2 =
     (let dLat = (lat2 - lat1) * pi / 180;
          dLon = (lon2 - lon1) * pi / 180
      in sin (dLat / 2) * sin (dLat / 2)
         + cos (lat1 * pi / 180) * cos (lat2 * pi / 180) * sin (dLon / 2) * sin (dLon / 2))"

text \<open>
  \<open>calculateDistance\<close> returns the distance in kilometres; the Boolean says whether
  \<^verbatim>\<open>console.warn('Invalid coordinates:', ...)\<close> was called. The function has no \<open>throw\<close>,
  and nothing it does to these values can throw, so it has no error result.
\<close>

definition calculateDistance :: "jsval \<Rightarrow> jsval \<Rightarrow> jsval \<Rightarrow> jsval \<Rightarrow> real \<times> bool" where
  "calculateDistance lat1 lon1 lat2 lon2 =
     (if \<not> isNumberType lat1 \<or> \<not> isNumberType lon1 \<or>
         \<not> isNumberType lat2 \<or> \<not> isNumberType lon2 \<or>
         isNaN lat1 \<or> isNaN lon1 \<or> isNaN lat2 \<or> isNaN lon2
      then (0, True)
      else
        (let R = 6371;
             a = haversineA (numberOf lat1) (numberOf lon1) (numberOf lat2) (numberOf lon2);
             c = 2 * atan2 (sqrt a) (sqrt (1 - a))
         in (R * c, False)))"

record matrixData =
  distanceMatrix :: "real list list"
  durationMatrix :: "real list list"
  mxSuccess :: bool

text \<open>
  One pass of the inner loop body of \<open>calculateFallbackMatrix\<close> for the pair \<open>(i, j)\<close>:
  the distance entry, the duration entry, and whether a warning was logged.
\<close>

definition fallbackCell :: "location list \<Rightarrow> nat \<Rightarrow> nat \<Rightarrow> real \<times> real \<times> bool" where
  "fallbackCell locations i j =
     (if i = j then (0, 0, False)
      else
        (let (straightDist, warned) =
               calculateDistance (latitude (locations ! i)) (longitude (locations ! i))
                                 (latitude (locations ! j)) (longitude (locations ! j));
             roadDist = straightDist * ROAD_FACTOR
         in (roadDist, (roadDist / SPEED_KMH) * 60, warned)))"

text \<open>
  The two loops run \<open>i\<close> and \<open>j\<close> over \<open>0..<n\<close> with \<open>n = locations.length\<close>, so every
  read \<open>locations[i]\<close> is in range. The second component lists the pairs that logged a
  warning, in loop order.
\<close>

definition calculateFallbackMatrix :: "location list \<Rightarrow> matrixData \<times> (nat \<times> nat) list" where
  "calculateFallbackMatrix locations =
     (let n = length locations
      in (\<lparr>distanceMatrix = map (\<lambda>i. map (\<lambda>j. fst (fallbackCell locations i j)) [0..<n]) [0..<n],
           durationMatrix = map (\<lambda>i. map (\<lambda>j. fst (snd (fallbackCell locations i j))) [0..<n]) [0..<n],
           mxSuccess = False\<rparr>,
          concat (map (\<lambda>i. concat (map (\<lambda>j. if snd (snd (fallbackCell locations i j)) then [(i, j)] else [])
                                         [0..<n])) [0..<n])))"




text \<open>A coordinate that passes the guard of \<open>calculateDistance\<close>.\<close>

definition numericCoord :: "jsval \<Rightarrow> bool" where
  "numericCoord v = (isNumberType v \<and> \<not> isNaN v)"


section \<open>Route builder (controller lines 318-517)\<close>

subsection \<open>Data\<close>

record vehicle =
  vehId :: string
  vehName :: string
  capacity :: jsval
  vehCount :: jsval

text \<open>
  A vehicle slot, as pushed on \<open>vehicleSlots\<close> (lines 353-359). The fields \<open>used\<close> and
  \<open>currentLoad\<close> of the source are written once and never read; they are left out.
\<close>

record vehicleSlot =
  slotId :: string
  slotName :: string
  slotCapacity :: real

record point =
  ptLatitude :: jsval
  ptLongitude :: jsval

record stop =
  locationId :: string
  locationName :: string
  stopLatitude :: jsval
  stopLongitude :: jsval
  stopDemand :: real
  stopOrder :: nat
  cumulativeDistance :: real
  distanceFromPrev :: real
  arrivalTime :: int
  eta :: string

type_synonym coordinates = "(real \<times> real) list"

record route =
  routeVehicle :: string
  vehicleName :: string
  stops :: "stop list"
  distance :: real
  duration :: real
  totalCapacity :: real
  geometry :: "coordinates option"
  usingRealRoadData :: bool

text \<open>
  The collaborators the builder awaits: the Mapbox matrix request (\<open>None\<close> is the
  \<open>null\<close> that \<open>getRoadMatrix\<close> returns when the service is unavailable) and the Mapbox
  directions request of \<open>getRouteGeometry\<close>, and the generative model behind
  \<open>analyzeIncidentImpact\<close>, asked with the incident type, the affected route index and
  the number of routes. They are parameters of the model.
\<close>

record collaborators =
  getRoadMatrix :: "location list \<Rightarrow> matrixData option"
  getRouteGeometry :: "stop list \<Rightarrow> point option \<Rightarrow> coordinates option"
  askModel :: "string option \<Rightarrow> real \<Rightarrow> nat \<Rightarrow> aiOutcome"

text \<open>
  What can stop the builder. \<open>TypeError\<close>: a property is read from \<open>undefined\<close> (a matrix
  row that does not exist, or \<open>toFixed\<close> called on a missing distance entry). \<open>NanTime\<close>: a
  duration entry is missing although its row exists; the source does not throw there, it
  goes on with NaN as the cumulative time. Times are numbers in this model, so the model
  stops; this only happens when the provider returns matrices of different shapes.
\<close>

datatype error = TypeError | NanTime

subsection \<open>Numbers and strings\<close>

text \<open>\<^verbatim>\<open>Math.round(x)\<close>: the nearest integer, halves towards plus infinity.\<close>

definition mathRound :: "real \<Rightarrow> int" where
  "mathRound x = \<lfloor>x + 1 / 2\<rfloor>"

text \<open>
  \<^verbatim>\<open>parseFloat(x.toFixed(2))\<close>: the nearest multiple of 1/100, halves away from zero
  (\<open>toFixed\<close> rounds the absolute value and picks the larger candidate on a tie).
\<close>

definition toFixed2 :: "real \<Rightarrow> real" where
  "toFixed2 x =
     (if x < 0 then - (of_int \<lfloor>- x * 100 + 1 / 2\<rfloor> / 100)
      else of_int \<lfloor>x * 100 + 1 / 2\<rfloor> / 100)"

text \<open>The remainder operator \<^verbatim>\<open>a % b\<close> on integers: the result has the sign of \<open>a\<close>.\<close>

definition jsRem :: "int \<Rightarrow> int \<Rightarrow> int" where
  "jsRem a b = (if a < 0 then - ((- a) mod \<bar>b\<bar>) else a mod \<bar>b\<bar>)"

definition digitChar :: "nat \<Rightarrow> char" where
  "digitChar d = ''0123456789'' ! d"

fun showNat :: "nat \<Rightarrow> string" where
  "showNat n = (if n < 10 then [digitChar n] else showNat (n div 10) @ [digitChar (n mod 10)])"

declare showNat.simps [simp del]

text \<open>\<^verbatim>\<open>String(n)\<close> for an integer \<open>n\<close>.\<close>

definition showInt :: "int \<Rightarrow> string" where
  "showInt n = (if n < 0 then CHR ''-'' # showNat (nat (- n)) else showNat (nat n))"

text \<open>\<^verbatim>\<open>s.padStart(2, '0')\<close>\<close>

definition padStart2 :: "string \<Rightarrow> string" where
  "padStart2 s = replicate (2 - length s) (CHR ''0'') @ s"

text \<open>\<^verbatim>\<open>s.split(':')\<close>\<close>

fun splitColon :: "string \<Rightarrow> string list" where
  "splitColon [] = [[]]"
| "splitColon (c # cs) =
     (if c = CHR '':'' then [] # splitColon cs
      else (case splitColon cs of [] \<Rightarrow> [[c]] | w # ws \<Rightarrow> (c # w) # ws))"

definition isDigit :: "char \<Rightarrow> bool" where
  "isDigit c = ((of_char (CHR ''0'') :: nat) \<le> of_char c \<and> (of_char c :: nat) \<le> of_char (CHR ''9''))"

definition digitsValue :: "string \<Rightarrow> nat" where
  "digitsValue s = foldl (\<lambda>acc c. 10 * acc + (of_char c - of_char (CHR ''0''))) 0 s"

text \<open>
  \<^verbatim>\<open>Number(s)\<close> for a piece of the departure time. The empty string is 0 and a string of
  decimal digits is its value. Every other string is read as NaN (\<open>None\<close>): that is what
  \<open>Number\<close> gives except on signed, fractional, exponent, prefixed or blank-padded
  numerals, which the model does not cover.
\<close>

definition jsNumber :: "string \<Rightarrow> nat option" where
  "jsNumber s = (if list_all isDigit s then Some (digitsValue s) else None)"

text \<open>
  \<^verbatim>\<open>const [startHour, startMinute] = departureTime.split(':').map(Number)\<close>; a missing
  second piece is \<open>undefined\<close> and makes the sum of line 477 NaN.
\<close>

definition parseDeparture :: "string \<Rightarrow> (nat \<times> nat) option" where
  "parseDeparture departureTime =
     (case splitColon departureTime of
        h # m # _ \<Rightarrow>
          (case (jsNumber h, jsNumber m) of
             (Some startHour, Some startMinute) \<Rightarrow> Some (startHour, startMinute)
           | _ \<Rightarrow> None)
      | _ \<Rightarrow> None)"

text \<open>Lines 475-482: the arrival estimate of a stop reached \<open>totalMinutesFromStart\<close> minutes after departure.\<close>

definition formatEta :: "string \<Rightarrow> int \<Rightarrow> string" where
  "formatEta departureTime totalMinutesFromStart =
     (case parseDeparture departureTime of
        None \<Rightarrow> ''NaN:NaN AM''
      | Some (startHour, startMinute) \<Rightarrow>
          (let etaMinutes = int startHour * 60 + int startMinute + totalMinutesFromStart;
               etaHour = jsRem (etaMinutes div 60) 24;
               etaMinute = jsRem etaMinutes 60;
               displayHour = (if etaHour > 12 then etaHour - 12
                              else (if etaHour = 0 then 12 else etaHour));
               ampm = (if etaHour \<ge> 12 then ''PM'' else ''AM'')
           in showInt displayHour @ '':'' @ padStart2 (showInt etaMinute) @ '' '' @ ampm))"

subsection \<open>Matrix reads\<close>

text \<open>
  \<^verbatim>\<open>m[i][j]\<close> where \<open>i\<close> and \<open>j\<close> come out of \<open>locationIndexMap\<close> (\<open>None\<close> is \<open>undefined\<close>).
  A missing row makes the second subscript throw; a missing entry in an existing row is
  \<open>undefined\<close> (\<open>Inr None\<close>).
\<close>

definition readCell :: "real list list \<Rightarrow> nat option \<Rightarrow> nat option \<Rightarrow> error + real option" where
  "readCell m i j =
     (case i of
        None \<Rightarrow> Inl TypeError
      | Some i' \<Rightarrow>
          if i' < length m then
            (case j of
               None \<Rightarrow> Inr None
             | Some j' \<Rightarrow> if j' < length (m ! i') then Inr (Some (m ! i' ! j')) else Inr None)
          else Inl TypeError)"

text \<open>Lines 341-344: \<open>locations.forEach((loc, idx) => locationIndexMap[id] = idx)\<close>; a later location with the same id overwrites an earlier one.\<close>

fun buildIndexMap :: "nat \<Rightarrow> location list \<Rightarrow> (string \<rightharpoonup> nat) \<Rightarrow> (string \<rightharpoonup> nat)" where
  "buildIndexMap idx [] m = m"
| "buildIndexMap idx (loc # rest) m = buildIndexMap (Suc idx) rest (m(locId loc \<mapsto> idx))"

definition locationIndexMap :: "location list \<Rightarrow> (string \<rightharpoonup> nat)" where
  "locationIndexMap locations = buildIndexMap 0 locations Map.empty"

subsection \<open>Vehicle slots\<close>

text \<open>
  Lines 350-361: \<open>count = v.count || 1\<close> and one slot for each \<open>i = 0, 1, ...\<close> below \<open>count\<close>,
  that is, the least natural number not below \<open>count\<close> many.
\<close>

definition slotsOf :: "vehicle \<Rightarrow> vehicleSlot list" where
  "slotsOf v =
     (let count = orElse (vehCount v) 1
      in replicate (if count \<le> 0 then 0 else nat \<lceil>count\<rceil>)
           \<lparr>slotId = vehId v, slotName = vehName v, slotCapacity = orElse (capacity v) 0\<rparr>)"

definition expandVehicles :: "vehicle list \<Rightarrow> vehicleSlot list" where
  "expandVehicles vehicles = concat (map slotsOf vehicles)"

subsection \<open>The greedy loops\<close>

text \<open>
  The local variables of \<open>runORToolsOptimization\<close> that its loops read and never
  change.
\<close>

record buildContext =
  ctxDistanceMatrix :: "real list list"
  ctxAdjustedDurationMatrix :: "real list list"
  ctxLocationIndexMap :: "string \<rightharpoonup> nat"
  ctxDepot :: location
  ctxDepotIndex :: "nat option"
  ctxNonDepot :: "location list"
  ctxDepartureTime :: string
  ctxIncidentLocation :: "point option"
  ctxFixedDelayMinutes :: real
  ctxUsingRealRoadData :: bool
  ctxGetRouteGeometry :: "stop list \<Rightarrow> point option \<Rightarrow> coordinates option"

text \<open>
  A stop as pushed on \<open>rtStops\<close> (lines 370-381, 410-421, 430-441). The four computed
  fields start as 0, 0, \<open>null\<close> and \<open>null\<close> (for the opening depot stop: 0, 0, 0 and
  \<^verbatim>\<open>'8:00 AM'\<close>); the annotation loop overwrites all four at every index before a route
  is returned, so the placeholders \<open>0\<close> and the given string stand for \<open>null\<close> here.
\<close>

definition newStop :: "location \<Rightarrow> nat \<Rightarrow> string \<Rightarrow> stop" where
  "newStop loc ord etaText =
     \<lparr>locationId = locId loc, locationName = locName loc,
      stopLatitude = latitude loc, stopLongitude = longitude loc,
      stopDemand = orElse (demand loc) 0, stopOrder = ord,
      cumulativeDistance = 0, distanceFromPrev = 0, arrivalTime = 0, eta = etaText\<rparr>"

text \<open>
  Lines 389-406, the \<open>for\<close> loop over \<open>nonDepot\<close>: \<open>best\<close> holds the chosen location with
  its distance \<open>bestD\<close> and index \<open>bestIndex\<close>; \<open>None\<close> is the initial state
  (\<open>best = null\<close>, \<open>bestD = Infinity\<close>). A missing entry \<open>d\<close> is \<open>undefined\<close>, for which
  \<open>d < bestD\<close> is false.
\<close>

fun findBest :: "real list list \<Rightarrow> (string \<rightharpoonup> nat) \<Rightarrow> string set \<Rightarrow> real \<Rightarrow> nat option \<Rightarrow>
    location list \<Rightarrow> (location \<times> real \<times> nat) option \<Rightarrow> error + (location \<times> real \<times> nat) option" where
  "findBest dm imap assigned remaining currentIndex [] best = Inr best"
| "findBest dm imap assigned remaining currentIndex (loc # rest) best =
     (if locId loc \<in> assigned then findBest dm imap assigned remaining currentIndex rest best
      else if orElse (demand loc) 0 > remaining
        then findBest dm imap assigned remaining currentIndex rest best
      else
        (case readCell dm currentIndex (imap (locId loc)) of
           Inl e \<Rightarrow> Inl e
         | Inr None \<Rightarrow> findBest dm imap assigned remaining currentIndex rest best
         | Inr (Some d) \<Rightarrow>
             (case imap (locId loc) of
                None \<Rightarrow> findBest dm imap assigned remaining currentIndex rest best
              | Some locIndex \<Rightarrow>
                  if (case best of None \<Rightarrow> True | Some (b, bestD, bestIndex) \<Rightarrow> d < bestD)
                  then findBest dm imap assigned remaining currentIndex rest (Some (loc, d, locIndex))
                  else findBest dm imap assigned remaining currentIndex rest best)))"

lemma findBest_chosen:
  assumes "findBest dm imap assigned remaining cur ls best = Inr (Some (b, d, k))"
  shows "best = Some (b, d, k) \<or>
         (b \<in> set ls \<and> locId b \<notin> assigned \<and> orElse (demand b) 0 \<le> remaining
          \<and> imap (locId b) = Some k \<and> readCell dm cur (Some k) = Inr (Some d))"
  using assms
proof (induction ls arbitrary: best)
  case Nil
  then show ?case by simp
next
  case (Cons loc rest)
  show ?case
  proof (cases "locId loc \<in> assigned \<or> orElse (demand loc) 0 > remaining")
    case True
    then have "findBest dm imap assigned remaining cur rest best = Inr (Some (b, d, k))"
      using Cons.prems by (auto split: if_splits)
    from Cons.IH[OF this] show ?thesis by auto
  next
    case False
    then have el: "locId loc \<notin> assigned" "orElse (demand loc) 0 \<le> remaining" by auto
    show ?thesis
    proof (cases "readCell dm cur (imap (locId loc))")
      case (Inl e)
      then show ?thesis using Cons.prems el by simp
    next
      case (Inr dOpt)
      show ?thesis
      proof (cases dOpt)
        case None
        then have "findBest dm imap assigned remaining cur rest best = Inr (Some (b, d, k))"
          using Cons.prems el Inr by simp
        from Cons.IH[OF this] show ?thesis by auto
      next
        case (Some d')
        show ?thesis
        proof (cases "imap (locId loc)")
          case None
          then have "findBest dm imap assigned remaining cur rest best = Inr (Some (b, d, k))"
            using Cons.prems el Inr Some by simp
          from Cons.IH[OF this] show ?thesis by auto
        next
          case (Some locIndex)
          show ?thesis
          proof (cases "case best of None \<Rightarrow> True | Some (b, bestD, bestIndex) \<Rightarrow> d' < bestD")
            case True
            then have "findBest dm imap assigned remaining cur rest (Some (loc, d', locIndex))
                         = Inr (Some (b, d, k))"
              using Cons.prems el Inr \<open>dOpt = Some d'\<close> Some by simp
            from Cons.IH[OF this] show ?thesis
              using el Inr \<open>dOpt = Some d'\<close> Some by auto
          next
            case False
            then have "findBest dm imap assigned remaining cur rest best = Inr (Some (b, d, k))"
              using Cons.prems el Inr \<open>dOpt = Some d'\<close> Some by simp
            from Cons.IH[OF this] show ?thesis by auto
          qed
        qed
      qed
    qed
  qed
qed

lemma findBest_fresh:
  assumes "findBest dm imap assigned remaining cur ls None = Inr (Some (b, d, k))"
  shows "b \<in> set ls" and "locId b \<notin> assigned" and "orElse (demand b) 0 \<le> remaining"
    and "imap (locId b) = Some k" and "readCell dm cur (Some k) = Inr (Some d)"
  using findBest_chosen[OF assms] by auto

lemma unassigned_decreases:
  assumes "b \<in> set ls" and "locId b \<notin> assigned"
  shows "length (filter (\<lambda>l. locId l \<notin> insert (locId b) assigned) ls)
           < length (filter (\<lambda>l. locId l \<notin> assigned) ls)"
proof -
  have "filter (\<lambda>l. locId l \<notin> insert (locId b) assigned) ls
          = filter (\<lambda>l. locId l \<noteq> locId b) (filter (\<lambda>l. locId l \<notin> assigned) ls)"
    by (induction ls) auto
  moreover have "b \<in> set (filter (\<lambda>l. locId l \<notin> assigned) ls)" using assms by simp
  ultimately show ?thesis
    using length_filter_less[of b "filter (\<lambda>l. locId l \<notin> assigned) ls" "\<lambda>l. locId l \<noteq> locId b"]
    by simp
qed

text \<open>
  Lines 387-426, the \<open>while (true)\<close> loop of one vehicle slot. The result is the stop
  list, the assigned set, the remaining capacity and the next order number when the
  loop breaks. Every pass assigns a location that was not assigned, so the loop ends.
\<close>

function greedyLoop :: "buildContext \<Rightarrow> string set \<Rightarrow> real \<Rightarrow> nat option \<Rightarrow> nat \<Rightarrow> stop list \<Rightarrow>
    error + (stop list \<times> string set \<times> real \<times> nat)" where
  "greedyLoop C assigned remaining currentIndex ord rtStops =
     (case findBest (ctxDistanceMatrix C) (ctxLocationIndexMap C) assigned remaining currentIndex
             (ctxNonDepot C) None of
        Inl e \<Rightarrow> Inl e
      | Inr None \<Rightarrow> Inr (rtStops, assigned, remaining, ord)
      | Inr (Some (best, bestD, bestIndex)) \<Rightarrow>
          greedyLoop C (insert (locId best) assigned) (remaining - orElse (demand best) 0)
            (Some bestIndex) (Suc ord) (rtStops @ [newStop best ord []]))"
  by pat_completeness auto
termination
proof (relation "measure (\<lambda>(C, assigned, remaining, currentIndex, ord, rtStops).
                    length (filter (\<lambda>l. locId l \<notin> assigned) (ctxNonDepot C)))", goal_cases)
  case 1
  show ?case by simp
next
  case (2 C assigned remaining currentIndex ord rtStops x2 x2a x y z bestIndex)
  then have "findBest (ctxDistanceMatrix C) (ctxLocationIndexMap C) assigned remaining currentIndex
               (ctxNonDepot C) None = Inr (Some (x, z, bestIndex))"
    by simp
  from findBest_fresh(1,2)[OF this]
  have "length (filter (\<lambda>l. locId l \<notin> insert (locId x) assigned) (ctxNonDepot C))
          < length (filter (\<lambda>l. locId l \<notin> assigned) (ctxNonDepot C))"
    by (rule unassigned_decreases)
  then show ?case by simp
qed

declare greedyLoop.simps [simp del]

text \<open>
  Lines 448-468: the leg into stop \<open>i\<close> of a route of \<open>n\<close> stops, as the pair
  \<open>(distanceFromPrev, timeFromPrev)\<close>. The service time is added unless the stop is the
  last one. A missing distance entry makes \<open>distanceFromPrev.toFixed(2)\<close> throw on line 471.
\<close>

definition legFromPrev :: "buildContext \<Rightarrow> nat \<Rightarrow> nat \<Rightarrow> string option \<Rightarrow> stop \<Rightarrow> error + real \<times> real" where
  "legFromPrev C n i prevId stopI =
     (if i > 0 then
        (let prevIndex = (case prevId of None \<Rightarrow> None | Some p \<Rightarrow> ctxLocationIndexMap C p);
             currIndex = ctxLocationIndexMap C (locationId stopI)
         in case readCell (ctxDistanceMatrix C) prevIndex currIndex of
              Inl e \<Rightarrow> Inl e
            | Inr dOpt \<Rightarrow>
                (case readCell (ctxAdjustedDurationMatrix C) prevIndex currIndex of
                   Inl e \<Rightarrow> Inl e
                 | Inr tOpt \<Rightarrow>
                     (case dOpt of
                        None \<Rightarrow> Inl TypeError
                      | Some dFromPrev \<Rightarrow>
                          (case tOpt of
                             None \<Rightarrow> Inl NanTime
                           | Some timeFromPrev \<Rightarrow>
                               Inr (dFromPrev,
                                    if i < n - 1 then timeFromPrev + SERVICE_TIME_MINUTES
                                    else timeFromPrev)))))
      else Inr (0, 0))"

text \<open>
  Lines 447-483, the annotation loop from index \<open>i\<close> on: \<open>prevId\<close> is the id of stop
  \<open>i - 1\<close>, \<open>cumulativeDist\<close> and \<open>cumulativeTime\<close> are the running sums. The result is the
  annotated stops from \<open>i\<close> on and the two sums at the end of the loop.
\<close>

fun annotate :: "buildContext \<Rightarrow> nat \<Rightarrow> nat \<Rightarrow> string option \<Rightarrow> real \<Rightarrow> real \<Rightarrow> stop list \<Rightarrow>
    error + (stop list \<times> real \<times> real)" where
  "annotate C n i prevId cumulativeDist cumulativeTime [] = Inr ([], cumulativeDist, cumulativeTime)"
| "annotate C n i prevId cumulativeDist cumulativeTime (stopI # rest) =
     (case legFromPrev C n i prevId stopI of
        Inl e \<Rightarrow> Inl e
      | Inr (dFromPrev, timeFromPrev) \<Rightarrow>
          (let cumulativeDist' = cumulativeDist + dFromPrev;
               cumulativeTime' = cumulativeTime + timeFromPrev;
               stopI' = stopI\<lparr>cumulativeDistance := toFixed2 cumulativeDist',
                           distanceFromPrev := toFixed2 dFromPrev,
                           arrivalTime := mathRound cumulativeTime',
                           eta := formatEta (ctxDepartureTime C) (mathRound cumulativeTime')\<rparr>
           in case annotate C n (Suc i) (Some (locationId stopI)) cumulativeDist' cumulativeTime' rest of
                Inl e \<Rightarrow> Inl e
              | Inr (rest', totalDist, totalTime) \<Rightarrow> Inr (stopI' # rest', totalDist, totalTime)))"

text \<open>
  Lines 429-510 for a slot whose loop added at least one stop: close the route at the
  depot, annotate it, add the fixed delay when this is the first route, fetch the
  geometry and make the route object.
\<close>

definition buildRoute :: "buildContext \<Rightarrow> vehicleSlot \<Rightarrow> stop list \<Rightarrow> real \<Rightarrow> nat \<Rightarrow> route list \<Rightarrow>
    error + route" where
  "buildRoute C vs rtStops remaining ord routes =
     (let closed = rtStops @ [newStop (ctxDepot C) ord []]
      in case annotate C (length closed) 0 None 0 0 closed of
           Inl e \<Rightarrow> Inl e
         | Inr (annotated, cumulativeDist, cumulativeTime) \<Rightarrow>
             (let totalDist = cumulativeDist;
                  rounded = of_int (mathRound cumulativeTime);
                  duration = (if ctxFixedDelayMinutes C > 0 \<and> length routes = 0
                              then rounded + ctxFixedDelayMinutes C else rounded);
                  geometry = ctxGetRouteGeometry C annotated (ctxIncidentLocation C)
              in Inr \<lparr>routeVehicle = slotId vs, vehicleName = slotName vs, stops = annotated,
                       distance = totalDist, duration = duration,
                       totalCapacity = slotCapacity vs - remaining,
                       geometry = geometry,
                       usingRealRoadData = ctxUsingRealRoadData C\<rparr>))"

text \<open>
  Lines 367-514, the \<open>for\<close> loop over the vehicle slots, with \<open>routes\<close> and \<open>assigned\<close> as
  they stand before the slot. The loop breaks once \<open>assigned.size === nonDepot.length\<close>.
\<close>

fun vehicleLoop :: "buildContext \<Rightarrow> vehicleSlot list \<Rightarrow> route list \<Rightarrow> string set \<Rightarrow> error + route list" where
  "vehicleLoop C [] routes assigned = Inr routes"
| "vehicleLoop C (vs # rest) routes assigned =
     (case greedyLoop C assigned (slotCapacity vs) (ctxDepotIndex C) 1
             [newStop (ctxDepot C) 0 ''8:00 AM''] of
        Inl e \<Rightarrow> Inl e
      | Inr (rtStops, assigned', remaining, ord) \<Rightarrow>
          (case (if length rtStops > 1
                 then (case buildRoute C vs rtStops remaining ord routes of
                         Inl e \<Rightarrow> Inl e
                       | Inr r \<Rightarrow> Inr (routes @ [r]))
                 else Inr routes) of
             Inl e \<Rightarrow> Inl e
           | Inr routes' \<Rightarrow>
               if card assigned' = length (ctxNonDepot C) then Inr routes'
               else vehicleLoop C rest routes' assigned'))"

text \<open>
  \<open>runORToolsOptimization\<close>. The road matrix is awaited first; when it is \<open>null\<close> the
  fallback matrix is used. The traffic multiplier scales every duration entry.
\<close>

definition makeContext :: "collaborators \<Rightarrow> location list \<Rightarrow> location \<Rightarrow> real \<Rightarrow> string \<Rightarrow>
    point option \<Rightarrow> real \<Rightarrow> buildContext" where
  "makeContext K locations depot trafficMult departure incidentLocation fixedDelay =
     (let depotId = locId depot;
          nonDepot = filter (\<lambda>l. locId l \<noteq> depotId) locations;
          roadData = getRoadMatrix K locations;
          md = (case roadData of Some m \<Rightarrow> m | None \<Rightarrow> fst (calculateFallbackMatrix locations));
          adjustedDurationMatrix =
            map (\<lambda>row. map (\<lambda>duration. duration * trafficMult) row) (durationMatrix md);
          imap = locationIndexMap locations
      in \<lparr>ctxDistanceMatrix = distanceMatrix md,
          ctxAdjustedDurationMatrix = adjustedDurationMatrix,
          ctxLocationIndexMap = imap,
          ctxDepot = depot,
          ctxDepotIndex = imap depotId,
          ctxNonDepot = nonDepot,
          ctxDepartureTime = departure,
          ctxIncidentLocation = incidentLocation,
          ctxFixedDelayMinutes = fixedDelay,
          ctxUsingRealRoadData = (case roadData of Some m \<Rightarrow> mxSuccess m | None \<Rightarrow> False),
          ctxGetRouteGeometry = getRouteGeometry K\<rparr>)"

definition runORToolsOptimization :: "collaborators \<Rightarrow> vehicle list \<Rightarrow> location list \<Rightarrow> location \<Rightarrow>
    real \<Rightarrow> string \<Rightarrow> point option \<Rightarrow> real \<Rightarrow> error + route list" where
  "runORToolsOptimization K vehicles locations depot trafficMult departure
       incidentLocation fixedDelay =
     vehicleLoop
       (makeContext K locations depot trafficMult departure incidentLocation fixedDelay)
       (expandVehicles vehicles) [] {}"

section \<open>Incident controller (controller lines 185-295, 575-771)\<close>

text \<open>
  The incident analysis as stored on a run: the fields of the analysis, and what
  \<open>rerouteOptimization\<close> and \<open>resolveIncident\<close> add to it. The two time stamps
  (\<open>reroutedAt\<close>, \<open>resolvedAt\<close>) are left out.
\<close>

record storedAnalysis = incidentAnalysis +
  originalDuration :: "real option"
  incidentType :: "string option"
  noAlternativeRoute :: "bool option"
  resolved :: bool

text \<open>
  The run document with its vehicles and locations populated. Of the schema's fields,
  those the three handlers below read or write are kept; \<open>algorithmResults\<close>,
  \<open>selectedAlgorithm\<close> and \<open>aiPrediction\<close> are written at creation only and are left out.
  Persistence is not modelled: a saved document is read back as it was written, and the
  documents found at creation are the ones populated later, in the same order.
\<close>

record optimization =
  optName :: string
  optVehicles :: "vehicle list"
  optLocations :: "location list"
  routes :: "route list"
  totalDistance :: real
  totalDuration :: real
  departureTime :: "string option"
  isIncidentActive :: bool
  incidentLocation :: "point option"
  detourLocation :: "point option"
  originalRoutes :: "route list option"
  incidentAnalysis :: "storedAnalysis option"

datatype response =
    NotFound string
  | BadRequest string
  | ServerError string
  | Json optimization

text \<open>\<open>analyzeIncidentImpact(incidentType, affectedRoute, allRoutes)\<close>\<close>

definition analyzeIncidentImpact :: "collaborators \<Rightarrow> string option \<Rightarrow> real \<Rightarrow> route list \<Rightarrow> incidentAnalysis" where
  "analyzeIncidentImpact K incType affectedRoute allRoutes =
     analyzeOutcome (askModel K incType affectedRoute (length allRoutes))"

text \<open>\<^verbatim>\<open>departureTime || '08:00'\<close>: a missing or empty string gives the default.\<close>

definition departureOrDefault :: "string option \<Rightarrow> string" where
  "departureOrDefault d = (case d of None \<Rightarrow> ''08:00'' | Some t \<Rightarrow> if t = [] then ''08:00'' else t)"

text \<open>
  The metrics loops (lines 247-253, 648-654, 734-740):
  \<^verbatim>\<open>routes.forEach(route => { totalDistance += route.distance || 0; ... })\<close>.
  On a number \<open>x\<close>, \<^verbatim>\<open>x || 0\<close> is \<open>x\<close>.
\<close>

definition sumDistance :: "route list \<Rightarrow> real" where
  "sumDistance rs = foldl (\<lambda>total r. total + distance r) 0 rs"

definition sumDuration :: "route list \<Rightarrow> real" where
  "sumDuration rs = foldl (\<lambda>total r. total + duration r) 0 rs"

text \<open>\<^verbatim>\<open>geometry?.coordinates || []\<close>\<close>

definition coordinatesOf :: "route \<Rightarrow> coordinates" where
  "coordinatesOf r = (case geometry r of None \<Rightarrow> [] | Some cs \<Rightarrow> cs)"

text \<open>
  \<^verbatim>\<open>a + b\<close> and \<^verbatim>\<open>x / 2\<close> on coordinates of stored stops: \<open>null\<close> counts as 0, and
  \<open>undefined\<close> or NaN make the result NaN.
\<close>

definition jsAdd :: "jsval \<Rightarrow> jsval \<Rightarrow> jsval" where
  "jsAdd a b = (case (toNumber a, toNumber b) of (Some x, Some y) \<Rightarrow> Num (x + y) | _ \<Rightarrow> NaN)"

definition jsHalf :: "jsval \<Rightarrow> jsval" where
  "jsHalf a = (case toNumber a of Some x \<Rightarrow> Num (x / 2) | None \<Rightarrow> NaN)"

record rerouteRequest =
  reqIncidentType :: "string option"
  reqAffectedRouteIndex :: jsval
  reqIncidentLocation :: "point option"

text \<open>
  Lines 589-615: the incident point. A supplied point counts only if both of its
  coordinates are truthy; otherwise the midpoint between the first two stops of
  \<open>optimization.routes[0]\<close> is taken, and \<open>null\<close> if there is no such route or it has fewer
  than two stops.
\<close>

definition finalIncidentLocation :: "optimization \<Rightarrow> rerouteRequest \<Rightarrow> point option" where
  "finalIncidentLocation opt req =
     (if (case reqIncidentLocation req of
            None \<Rightarrow> False
          | Some p \<Rightarrow> truthy (ptLatitude p) \<and> truthy (ptLongitude p))
      then (case reqIncidentLocation req of
              None \<Rightarrow> None
            | Some p \<Rightarrow> Some \<lparr>ptLatitude = ptLatitude p, ptLongitude = ptLongitude p\<rparr>)
      else
        (case routes opt of
           [] \<Rightarrow> None
         | firstRoute # others \<Rightarrow>
             (case stops firstRoute of
                depot # firstStop # furtherStops \<Rightarrow>
                  (let midLat = jsHalf (jsAdd (stopLatitude depot) (stopLatitude firstStop));
                       midLng = jsHalf (jsAdd (stopLongitude depot) (stopLongitude firstStop))
                   in Some \<lparr>ptLatitude = midLat, ptLongitude = midLng\<rparr>)
              | _ \<Rightarrow> None)))"

text \<open>
  The midpoint between the depot and the first stop of a route (the arithmetic mean of
  the latitudes and of the longitudes of its first two stops), and the incident point as
  the specification words it: that midpoint for the route named by the affected-route
  index of the request.
\<close>

definition depotFirstStopMidpoint :: "route \<Rightarrow> point option" where
  "depotFirstStopMidpoint r =
     (case stops r of
        depot # firstStop # furtherStops \<Rightarrow>
          Some \<lparr>ptLatitude = jsHalf (jsAdd (stopLatitude depot) (stopLatitude firstStop)),
                ptLongitude = jsHalf (jsAdd (stopLongitude depot) (stopLongitude firstStop))\<rparr>
      | _ \<Rightarrow> None)"

definition affectedRouteMidpoint :: "optimization \<Rightarrow> rerouteRequest \<Rightarrow> point option" where
  "affectedRouteMidpoint opt req =
     (let i = nat \<lfloor>orElse (reqAffectedRouteIndex req) 0\<rfloor>
      in if i < length (routes opt) then depotFirstStopMidpoint (routes opt ! i) else None)"

text \<open>
  \<open>rerouteOptimization\<close> (lines 575-698). The first argument of the pair returned is the
  response, the second is the stored document after the request. An exception of the
  builder is caught and answered with status 500; nothing has been saved then.
\<close>

definition rerouteOptimization :: "collaborators \<Rightarrow> optimization option \<Rightarrow> rerouteRequest \<Rightarrow>
    response \<times> optimization option" where
  "rerouteOptimization K stored req =
     (case stored of
        None \<Rightarrow> (NotFound ''Optimization not found'', stored)
      | Some opt \<Rightarrow>
          (let finalLocation = finalIncidentLocation opt req;
               analysis = analyzeIncidentImpact K (reqIncidentType req)
                            (orElse (reqAffectedRouteIndex req) 0) (routes opt);
               fixedDelay = orElse (fixedDelayMinutes analysis) 60
           in case find isDepot (optLocations opt) of
                None \<Rightarrow> (BadRequest ''Depot not found'', stored)
              | Some depot \<Rightarrow>
                  (let oldRoutes = routes opt;
                       oldDuration = totalDuration opt
                   in case runORToolsOptimization K (optVehicles opt) (optLocations opt) depot 1
                             (departureOrDefault (departureTime opt)) finalLocation fixedDelay of
                        Inl e \<Rightarrow> (ServerError ''Rerouting failed'', stored)
                      | Inr newRoutes \<Rightarrow>
                          (let noAlternative =
                                 (if length oldRoutes > 0 \<and> length newRoutes > 0
                                  then coordinatesOf (hd oldRoutes) = coordinatesOf (hd newRoutes)
                                  else False);
                               updated = opt
                                 \<lparr>routes := newRoutes,
                                  totalDistance := sumDistance newRoutes,
                                  totalDuration := sumDuration newRoutes,
                                  isIncidentActive := True,
                                  incidentLocation := finalLocation,
                                  originalRoutes := Some oldRoutes,
                                  incidentAnalysis := Some
                                    (incidentAnalysis.extend (analysis\<lparr>delayMinutes := Num fixedDelay\<rparr>)
                                       (storedAnalysis.fields (Some oldDuration) (reqIncidentType req)
                                          (Some noAlternative) False))\<rparr>
                           in (Json updated, Some updated)))))"

text \<open>\<open>resolveIncident\<close> (lines 701-771).\<close>

definition resolveIncident :: "collaborators \<Rightarrow> optimization option \<Rightarrow> response \<times> optimization option" where
  "resolveIncident K stored =
     (case stored of
        None \<Rightarrow> (NotFound ''Optimization not found'', stored)
      | Some opt \<Rightarrow>
          if \<not> isIncidentActive opt then (BadRequest ''No active incident to resolve'', stored)
          else
            (case find isDepot (optLocations opt) of
               None \<Rightarrow> (BadRequest ''Depot not found'', stored)
             | Some depot \<Rightarrow>
                 (case runORToolsOptimization K (optVehicles opt) (optLocations opt) depot 1
                         (departureOrDefault (departureTime opt)) None 0 of
                    Inl e \<Rightarrow> (ServerError ''Failed to resolve incident'', stored)
                  | Inr normalRoutes \<Rightarrow>
                      (let updated = opt
                             \<lparr>routes := normalRoutes,
                              totalDistance := sumDistance normalRoutes,
                              totalDuration := sumDuration normalRoutes,
                              isIncidentActive := False,
                              incidentLocation := None,
                              detourLocation := None,
                              originalRoutes := None,
                              incidentAnalysis :=
                                (case incidentAnalysis opt of
                                   None \<Rightarrow> Some
                                     \<lparr>aiSuccess = False, fixedDelayMinutes = Undefined,
                                      delayMinutes = Undefined, trafficMultiplier = Undefined,
                                      originalDuration = None, incidentType = None,
                                      noAlternativeRoute = None, resolved = True\<rparr>
                                 | Some a \<Rightarrow> Some (a\<lparr>resolved := True\<rparr>))\<rparr>
                       in (Json updated, Some updated)))))"




section \<open>Notions used in the statements\<close>

text \<open>\<^verbatim>\<open>loc.demand || 0\<close>, the demand the builder works with.\<close>

definition demandOf :: "location \<Rightarrow> real" where
  "demandOf l = orElse (demand l) 0"

text \<open>
  The demands \<open>ds\<close>, taken in order, each fit the capacity that remains when their turn
  comes, starting from \<open>remaining\<close>.
\<close>

fun loadsWithin :: "real \<Rightarrow> real list \<Rightarrow> bool" where
  "loadsWithin remaining [] = True"
| "loadsWithin remaining (d # ds) = (d \<le> remaining \<and> loadsWithin (remaining - d) ds)"

text \<open>The fields of a stop that are set when it is pushed and never changed afterwards.\<close>

definition rawFields :: "stop \<Rightarrow> string \<times> string \<times> jsval \<times> jsval \<times> real \<times> nat" where
  "rawFields s = (locationId s, locationName s, stopLatitude s, stopLongitude s, stopDemand s, stopOrder s)"

text \<open>The stops of a route other than its depot stops.\<close>

definition nonDepotStops :: "location \<Rightarrow> route \<Rightarrow> stop list" where
  "nonDepotStops depot r = filter (\<lambda>s. locationId s \<noteq> locId depot) (stops r)"

text \<open>
  A route made for a slot: the slot loop, started from the opening depot stop with some
  assigned set, added the stops \<open>added\<close>, and the route was closed and annotated.
\<close>

definition builtFor :: "buildContext \<Rightarrow> vehicleSlot \<Rightarrow> route list \<Rightarrow> route \<Rightarrow> bool" where
  "builtFor C vs before r =
     (\<exists>added. added \<noteq> []
        \<and> loadsWithin (slotCapacity vs) (map stopDemand added)
        \<and> (\<forall>s \<in> set added. \<exists>l \<in> set (ctxNonDepot C). s = newStop l (stopOrder s) [])
        \<and> buildRoute C vs (newStop (ctxDepot C) 0 ''8:00 AM'' # added)
             (slotCapacity vs - sum_list (map stopDemand added)) (Suc (length added)) before = Inr r)"

text \<open>
  A route without its duration and geometry, and a list of durations with a delay added
  to the first.
\<close>

definition exceptDelay :: "route \<Rightarrow> route" where
  "exceptDelay r = r\<lparr>duration := 0, geometry := None\<rparr>"

fun delayFirst :: "real \<Rightarrow> real list \<Rightarrow> real list" where
  "delayFirst d [] = []"
| "delayFirst d (x # xs) = (x + d) # xs"











section \<open>A worked example\<close>

text \<open>
  A depot and three customers; the third customer's demand fits no vehicle. Two
  vehicles of capacity 10 and 15, one slot each. The road matrix service answers with
  the matrices below (kilometres and minutes), the directions service returns no
  geometry, and no API key is configured for the incident analysis.
\<close>

definition exDepot :: location where
  "exDepot = \<lparr>locId = ''d'', locName = ''Depot'', latitude = Num 0, longitude = Num 0,
              demand = Undefined, isDepot = True\<rparr>"

definition exA :: location where
  "exA = \<lparr>locId = ''a'', locName = ''A'', latitude = Num 2, longitude = Num 4,
          demand = Num 10, isDepot = False\<rparr>"

definition exB :: location where
  "exB = \<lparr>locId = ''b'', locName = ''B'', latitude = Num 6, longitude = Num 8,
          demand = Num 10, isDepot = False\<rparr>"

definition exC :: location where
  "exC = \<lparr>locId = ''c'', locName = ''C'', latitude = Num 1, longitude = Num 1,
          demand = Num 50, isDepot = False\<rparr>"


definition exLocations :: "location list" where
  "exLocations = [exDepot, exA, exB, exC]"

definition exVehicles :: "vehicle list" where
  "exVehicles = [\<lparr>vehId = ''v1'', vehName = ''Van'', capacity = Num 10, vehCount = Undefined\<rparr>,
                 \<lparr>vehId = ''v2'', vehName = ''Truck'', capacity = Num 15, vehCount = Num 1\<rparr>]"

definition exSlots :: "vehicleSlot list" where
  "exSlots = [\<lparr>slotId = ''v1'', slotName = ''Van'', slotCapacity = 10\<rparr>,
              \<lparr>slotId = ''v2'', slotName = ''Truck'', slotCapacity = 15\<rparr>]"

definition exMatrix :: matrixData where
  "exMatrix = \<lparr>distanceMatrix = [[0, 5, 9, 1], [5, 0, 7, 4], [9, 7, 0, 8], [1, 4, 8, 0]],
               durationMatrix = [[0, 10, 18, 2], [10, 0, 14, 8], [18, 14, 0, 16], [2, 8, 16, 0]],
               mxSuccess = True\<rparr>"

definition exK :: collaborators where
  "exK = \<lparr>getRoadMatrix = (\<lambda>ls. Some exMatrix),
          getRouteGeometry = (\<lambda>ss p. None),
          askModel = (\<lambda>t i n. NoApiKey)\<rparr>"

text \<open>The builder's context for the example, for a multiplier, an incident point and a delay.\<close>

definition exContext :: "real \<Rightarrow> point option \<Rightarrow> real \<Rightarrow> buildContext" where
  "exContext trafficMult incidentPoint fixedDelay =
     \<lparr>ctxDistanceMatrix = [[0, 5, 9, 1], [5, 0, 7, 4], [9, 7, 0, 8], [1, 4, 8, 0]],
      ctxAdjustedDurationMatrix =
        map (\<lambda>row. map (\<lambda>t. t * trafficMult) row)
          [[0, 10, 18, 2], [10, 0, 14, 8], [18, 14, 0, 16], [2, 8, 16, 0]],
      ctxLocationIndexMap = [''d'' \<mapsto> 0, ''a'' \<mapsto> 1, ''b'' \<mapsto> 2, ''c'' \<mapsto> 3],
      ctxDepot = exDepot,
      ctxDepotIndex = Some 0,
      ctxNonDepot = [exA, exB, exC],
      ctxDepartureTime = ''08:00'',
      ctxIncidentLocation = incidentPoint,
      ctxFixedDelayMinutes = fixedDelay,
      ctxUsingRealRoadData = True,
      ctxGetRouteGeometry = (\<lambda>ss p. None)\<rparr>"

text \<open>What the builder returns in the example (\<open>[]\<close> would stand for an exception).\<close>

definition exBuild :: "real \<Rightarrow> point option \<Rightarrow> real \<Rightarrow> route list" where
  "exBuild trafficMult incidentPoint fixedDelay =
     (case vehicleLoop (exContext trafficMult incidentPoint fixedDelay) exSlots [] {} of
        Inl e \<Rightarrow> []
      | Inr rs \<Rightarrow> rs)"

definition exMidpoint :: point where
  "exMidpoint = \<lparr>ptLatitude = Num 1, ptLongitude = Num 2\<rparr>"

text \<open>
  A run created under normal conditions, the same run after a simulated incident, and
  a request that names the second route as the affected one.
\<close>

definition exRun :: optimization where
  "exRun = \<lparr>optName = ''Monday'', optVehicles = exVehicles, optLocations = exLocations,
            routes = exBuild 1 None 0,
            totalDistance = 28, totalDuration = 86,
            departureTime = Some ''08:00'', isIncidentActive = False,
            incidentLocation = None, detourLocation = None, originalRoutes = None,
            incidentAnalysis = None\<rparr>"

definition exRequest :: rerouteRequest where
  "exRequest = \<lparr>reqIncidentType = Some ''ACCIDENT'', reqAffectedRouteIndex = Num 1,
                reqIncidentLocation = None\<rparr>"

definition exActiveRun :: optimization where
  "exActiveRun = exRun
     \<lparr>routes := exBuild 1 (Some exMidpoint) 60,
      totalDistance := 28, totalDuration := 146,
      isIncidentActive := True,
      incidentLocation := Some exMidpoint,
      originalRoutes := Some (exBuild 1 None 0),
      incidentAnalysis := Some
        \<lparr>aiSuccess = False, fixedDelayMinutes = Num 60, delayMinutes = Num 60,
         trafficMultiplier = Undefined, originalDuration = Some 86,
         incidentType = Some ''ACCIDENT'', noAlternativeRoute = Some True, resolved = False\<rparr>\<rparr>"


definition exResolvedRun :: optimization where
  "exResolvedRun = exRun
     \<lparr>incidentAnalysis := Some
        \<lparr>aiSuccess = False, fixedDelayMinutes = Num 60, delayMinutes = Num 60,
         trafficMultiplier = Undefined, originalDuration = Some 86,
         incidentType = Some ''ACCIDENT'', noAlternativeRoute = Some True, resolved = True\<rparr>\<rparr>"

text \<open>The active run after a second simulated incident.\<close>

definition exTwiceRun :: optimization where
  "exTwiceRun = exActiveRun
     \<lparr>originalRoutes := Some (exBuild 1 (Some exMidpoint) 60),
      incidentAnalysis := Some
        \<lparr>aiSuccess = False, fixedDelayMinutes = Num 60, delayMinutes = Num 60,
         trafficMultiplier = Undefined, originalDuration = Some 146,
         incidentType = Some ''ACCIDENT'', noAlternativeRoute = Some True, resolved = False\<rparr>\<rparr>"





section \<open>Properties of the incident analysis\<close>


lemma appliedDelay_range: "30 \<le> appliedDelay out \<and> appliedDelay out \<le> 300"
proof (cases out)
  case (AiParsed v m)
  then show ?thesis
    by (cases v) (simp_all add: appliedDelay_def adjustDelay_def jsGreater_def jsLess_def)
qed (simp_all add: appliedDelay_def)




section \<open>Properties of the fallback matrix\<close>







lemma numericCoord_Num: "numericCoord v \<longleftrightarrow> (\<exists>x. v = Num x)"
  by (cases v) (simp_all add: numericCoord_def)








section \<open>The worked example, evaluated\<close>

lemma ex_context:
  "makeContext exK exLocations exDepot m ''08:00'' il d = exContext m il d"
  by (simp add: makeContext_def exContext_def exK_def exLocations_def exMatrix_def
      locationIndexMap_def exDepot_def exA_def exB_def exC_def Let_def numeral_2_eq_2 numeral_3_eq_3)

lemma ex_slots: "expandVehicles exVehicles = exSlots"
  by (simp add: expandVehicles_def exVehicles_def exSlots_def slotsOf_def)

lemma ex_depot: "find isDepot exLocations = Some exDepot"
  by (simp add: exLocations_def exDepot_def)

lemma ex_loop_normal: "vehicleLoop (exContext 1 None 0) exSlots [] {} = Inr (exBuild 1 None 0)"
  by code_simp

lemma ex_loop_incident:
  "vehicleLoop (exContext 1 (Some exMidpoint) 60) exSlots [] {} = Inr (exBuild 1 (Some exMidpoint) 60)"
  by code_simp

lemma ex_loop_slow: "vehicleLoop (exContext (3 / 2) None 0) exSlots [] {} = Inr (exBuild (3 / 2) None 0)"
  by code_simp

lemma ex_run:
  "runORToolsOptimization exK exVehicles exLocations exDepot 1 ''08:00'' None 0
     = Inr (exBuild 1 None 0)"
  "runORToolsOptimization exK exVehicles exLocations exDepot 1 ''08:00'' (Some exMidpoint) 60
     = Inr (exBuild 1 (Some exMidpoint) 60)"
  "runORToolsOptimization exK exVehicles exLocations exDepot (3 / 2) ''08:00'' None 0
     = Inr (exBuild (3 / 2) None 0)"
  by (simp_all only: runORToolsOptimization_def ex_context ex_slots ex_loop_normal
      ex_loop_incident ex_loop_slow)

lemma ex_totals:
  "sumDistance (exBuild 1 None 0) = 28" "sumDuration (exBuild 1 None 0) = 86"
  "sumDistance (exBuild 1 (Some exMidpoint) 60) = 28"
  "sumDuration (exBuild 1 (Some exMidpoint) 60) = 146"
  "sumDistance (exBuild (3 / 2) None 0) = 28" "sumDuration (exBuild (3 / 2) None 0) = 114"
  by code_simp+

lemma ex_shape:
  "length (exBuild 1 None 0) = 2" "length (exBuild 1 (Some exMidpoint) 60) = 2"
  "length (exBuild (3 / 2) None 0) = 2"
  "coordinatesOf (hd (exBuild 1 None 0)) = []"
  "coordinatesOf (hd (exBuild 1 (Some exMidpoint) 60)) = []"
  by code_simp+

lemma ex_first_stops:
  "map (\<lambda>r. map (\<lambda>s. (locationId s, stopLatitude s, stopLongitude s)) (take 2 (stops r))) (exBuild 1 None 0)
     = [[(''d'', Num 0, Num 0), (''a'', Num 2, Num 4)], [(''d'', Num 0, Num 0), (''b'', Num 6, Num 8)]]"
  by code_simp

lemma ex_final_location: "finalIncidentLocation exRun exRequest = Some exMidpoint"
  by code_simp

lemma ex_reroute: "rerouteOptimization exK (Some exRun) exRequest = (Json exActiveRun, Some exActiveRun)"
  unfolding rerouteOptimization_def
  apply (simp add: ex_final_location)
  apply (simp add: exRun_def exRequest_def ex_depot analyzeIncidentImpact_def exK_def departureOrDefault_def Let_def)
  apply (simp add: exK_def[symmetric] ex_run ex_totals ex_shape exActiveRun_def exRun_def
      exRequest_def Let_def incidentAnalysis.extend_def storedAnalysis.fields_def)
  done


lemma ex_resolve:
  "resolveIncident exK (Some exActiveRun) = (Json exResolvedRun, Some exResolvedRun)"
  unfolding resolveIncident_def
  apply (simp add: exActiveRun_def exRun_def ex_depot departureOrDefault_def)
  apply (simp add: ex_run ex_totals exResolvedRun_def exRun_def Let_def)
  done

lemma ex_final_location_active: "finalIncidentLocation exActiveRun exRequest = Some exMidpoint"
  by code_simp

lemma ex_reroute_twice:
  "rerouteOptimization exK (Some exActiveRun) exRequest = (Json exTwiceRun, Some exTwiceRun)"
  unfolding rerouteOptimization_def
  apply (simp add: ex_final_location_active)
  apply (simp add: exActiveRun_def exRun_def exRequest_def ex_depot analyzeIncidentImpact_def exK_def
      departureOrDefault_def Let_def)
  apply (simp add: exK_def[symmetric] ex_run ex_totals ex_shape exTwiceRun_def exActiveRun_def exRun_def
      exRequest_def Let_def incidentAnalysis.extend_def storedAnalysis.fields_def)
  done







section \<open>Properties of the incident controller\<close>

lemma resolve_inactive:
  "\<not> isIncidentActive opt \<Longrightarrow>
     resolveIncident K (Some opt) = (BadRequest ''No active incident to resolve'', Some opt)"
  by (simp add: resolveIncident_def)

lemma resolve_Json:
  assumes "resolveIncident K (Some opt) = (Json u, st)"
  shows "st = Some u" and "isIncidentActive opt" and "\<not> isIncidentActive u"
    and "\<exists>depot rs. find isDepot (optLocations opt) = Some depot
           \<and> runORToolsOptimization K (optVehicles opt) (optLocations opt) depot 1
                 (departureOrDefault (departureTime opt)) None 0 = Inr rs
           \<and> routes u = rs \<and> totalDistance u = sumDistance rs \<and> totalDuration u = sumDuration rs"
    and "optVehicles u = optVehicles opt" and "optLocations u = optLocations opt"
    and "departureTime u = departureTime opt"
  using assms
  by (auto simp add: resolveIncident_def Let_def split: if_splits option.splits sum.splits)

lemma reroute_Json:
  assumes "rerouteOptimization K (Some opt) req = (Json u, st)"
  shows "st = Some u" and "isIncidentActive u"
    and "\<exists>depot rs. find isDepot (optLocations opt) = Some depot
           \<and> runORToolsOptimization K (optVehicles opt) (optLocations opt) depot 1
                 (departureOrDefault (departureTime opt)) (finalIncidentLocation opt req)
                 (appliedDelay (askModel K (reqIncidentType req)
                    (orElse (reqAffectedRouteIndex req) 0) (length (routes opt)))) = Inr rs
           \<and> routes u = rs \<and> totalDistance u = sumDistance rs \<and> totalDuration u = sumDuration rs"
    and "optVehicles u = optVehicles opt" and "optLocations u = optLocations opt"
    and "departureTime u = departureTime opt"
    and "incidentLocation u = finalIncidentLocation opt req"
    and "originalRoutes u = Some (routes opt)"
  using assms
  by (auto simp add: rerouteOptimization_def Let_def analyzeIncidentImpact_def appliedDelay_def
      split: if_splits option.splits sum.splits)

text \<open>
  C6: resolving a run whose \<open>isIncidentActive\<close> flag is false is answered with the state
  error (status 400, "No active incident to resolve") and the stored run is the run as
  it was. Whenever a resolve succeeds, the run it stores is not active, so a second
  resolve (with whatever the collaborators answer then) gets the same error and leaves
  that run as it is.
\<close>

theorem C6_resolve_without_incident:
  "(\<not> isIncidentActive opt \<longrightarrow>
      resolveIncident K (Some opt) = (BadRequest ''No active incident to resolve'', Some opt))
   \<and> (resolveIncident K (Some opt) = (Json u, st) \<longrightarrow>
        st = Some u
        \<and> resolveIncident K' st = (BadRequest ''No active incident to resolve'', Some u))"
proof (intro conjI impI)
  assume "\<not> isIncidentActive opt"
  then show "resolveIncident K (Some opt) = (BadRequest ''No active incident to resolve'', Some opt)"
    by (rule resolve_inactive)
next
  assume r: "resolveIncident K (Some opt) = (Json u, st)"
  show "st = Some u" using resolve_Json(1)[OF r] .
  then show "resolveIncident K' st = (BadRequest ''No active incident to resolve'', Some u)"
    using resolve_Json(3)[OF r] by (simp add: resolve_inactive)
qed

theorem C6_resolve_without_incident_witness:
  "\<not> isIncidentActive exRun
   \<and> resolveIncident exK (Some exRun) = (BadRequest ''No active incident to resolve'', Some exRun)
   \<and> resolveIncident exK (Some exActiveRun) = (Json exResolvedRun, Some exResolvedRun)
   \<and> resolveIncident exK (Some exResolvedRun)
       = (BadRequest ''No active incident to resolve'', Some exResolvedRun)"
  using C6_resolve_without_incident[of exRun exK exResolvedRun "Some exResolvedRun" exK]
    C6_resolve_without_incident[of exActiveRun exK exResolvedRun "Some exResolvedRun" exK]
    ex_resolve
  by (simp add: exRun_def)

text \<open>
  C2: the handler never reads \<open>isIncidentActive\<close>. In the worked example a second
  simulate request on the active run is answered with the updated run, and the stored
  run changes: its comparison baseline is now the delayed route set and its original
  duration the delayed total.
\<close>

theorem C2_second_incident_accepted:
  "isIncidentActive exActiveRun
   \<and> rerouteOptimization exK (Some exActiveRun) exRequest = (Json exTwiceRun, Some exTwiceRun)
   \<and> exTwiceRun \<noteq> exActiveRun
   \<and> originalRoutes exActiveRun = Some (exBuild 1 None 0)
   \<and> originalRoutes exTwiceRun = Some (exBuild 1 (Some exMidpoint) 60)
   \<and> map_option originalDuration (incidentAnalysis exActiveRun) = Some (Some 86)
   \<and> map_option originalDuration (incidentAnalysis exTwiceRun) = Some (Some 146)"
  using ex_reroute_twice
  by (simp add: exTwiceRun_def exActiveRun_def exRun_def)

text \<open>
  C7 as stated fails: the handler takes the first route whatever the affected-route
  index is. In the example the request names route 1, whose midpoint is (3, 4); the
  incident point used is (1, 2), the midpoint of route 0.
\<close>

theorem C7_affected_route_counterexample:
  "reqIncidentLocation exRequest = None
   \<and> reqAffectedRouteIndex exRequest = Num 1
   \<and> finalIncidentLocation exRun exRequest = Some \<lparr>ptLatitude = Num 1, ptLongitude = Num 2\<rparr>
   \<and> affectedRouteMidpoint exRun exRequest = Some \<lparr>ptLatitude = Num 3, ptLongitude = Num 4\<rparr>
   \<and> finalIncidentLocation exRun exRequest \<noteq> affectedRouteMidpoint exRun exRequest"
proof -
  have a: "finalIncidentLocation exRun exRequest = Some \<lparr>ptLatitude = Num 1, ptLongitude = Num 2\<rparr>"
    by code_simp
  have b: "affectedRouteMidpoint exRun exRequest = Some \<lparr>ptLatitude = Num 3, ptLongitude = Num 4\<rparr>"
    by code_simp
  have c: "reqIncidentLocation exRequest = None" "reqAffectedRouteIndex exRequest = Num 1"
    by (simp_all add: exRequest_def)
  show ?thesis by (simp add: a b c)
qed

text \<open>
  C7 (amended): when the request supplies no incident point, or one with a latitude or
  longitude that is falsy (0 included), the incident point is the midpoint between the
  depot and the first stop of the first route of the run, whatever affected-route index
  the request carries: for numeric coordinates, the arithmetic mean of the two latitudes
  and of the two longitudes. It is \<open>null\<close> when the run has no route or its first route
  has fewer than two stops. That point is what a successful request stores as the
  incident location.
\<close>

theorem C7_incident_point:
  assumes "reqIncidentLocation req = None
           \<or> (\<exists>p. reqIncidentLocation req = Some p \<and> \<not> (truthy (ptLatitude p) \<and> truthy (ptLongitude p)))"
  shows "finalIncidentLocation opt req =
           (case routes opt of [] \<Rightarrow> None | firstRoute # others \<Rightarrow> depotFirstStopMidpoint firstRoute)
       \<and> finalIncidentLocation opt (req\<lparr>reqAffectedRouteIndex := i\<rparr>) = finalIncidentLocation opt req
       \<and> (routes opt = firstRoute # others \<and> stops firstRoute = s0 # s1 # ss
            \<and> stopLatitude s0 = Num a \<and> stopLongitude s0 = Num b
            \<and> stopLatitude s1 = Num c \<and> stopLongitude s1 = Num d \<longrightarrow>
            finalIncidentLocation opt req
              = Some \<lparr>ptLatitude = Num ((a + c) / 2), ptLongitude = Num ((b + d) / 2)\<rparr>)
       \<and> (rerouteOptimization K (Some opt) req = (Json u, st) \<longrightarrow>
            incidentLocation u = finalIncidentLocation opt req)"
proof -
  have ns: "\<not> (case reqIncidentLocation req of None \<Rightarrow> False
                | Some p \<Rightarrow> truthy (ptLatitude p) \<and> truthy (ptLongitude p))"
    using assms by (auto split: option.splits)
  have 1: "finalIncidentLocation opt req =
           (case routes opt of [] \<Rightarrow> None | firstRoute # others \<Rightarrow> depotFirstStopMidpoint firstRoute)"
    using ns by (simp add: finalIncidentLocation_def depotFirstStopMidpoint_def Let_def
        split: list.splits)
  have 2: "finalIncidentLocation opt (req\<lparr>reqAffectedRouteIndex := i\<rparr>) = finalIncidentLocation opt req"
    by (simp add: finalIncidentLocation_def)
  have 3: "finalIncidentLocation opt req
              = Some \<lparr>ptLatitude = Num ((a + c) / 2), ptLongitude = Num ((b + d) / 2)\<rparr>"
    if "routes opt = firstRoute # others" "stops firstRoute = s0 # s1 # ss"
       "stopLatitude s0 = Num a" "stopLongitude s0 = Num b"
       "stopLatitude s1 = Num c" "stopLongitude s1 = Num d"
    using that by (simp add: 1 depotFirstStopMidpoint_def jsAdd_def jsHalf_def)
  have 4: "incidentLocation u = finalIncidentLocation opt req"
    if "rerouteOptimization K (Some opt) req = (Json u, st)"
    using reroute_Json(7)[OF that] .
  show ?thesis using 1 2 3 4 by blast
qed

theorem C7_incident_point_witness:
  "reqIncidentLocation exRequest = None
   \<and> finalIncidentLocation exRun exRequest = Some \<lparr>ptLatitude = Num 1, ptLongitude = Num 2\<rparr>
   \<and> finalIncidentLocation exRun (exRequest\<lparr>reqAffectedRouteIndex := Num 0\<rparr>)
       = Some \<lparr>ptLatitude = Num 1, ptLongitude = Num 2\<rparr>
   \<and> incidentLocation exActiveRun = Some \<lparr>ptLatitude = Num 1, ptLongitude = Num 2\<rparr>"
proof -
  have n: "reqIncidentLocation exRequest = None" by (simp add: exRequest_def)
  have e: "finalIncidentLocation exRun exRequest = Some \<lparr>ptLatitude = Num 1, ptLongitude = Num 2\<rparr>"
    using ex_final_location by (simp add: exMidpoint_def)
  show ?thesis
    using C7_incident_point[OF disjI1[OF n], of exRun "Num 0" _ _ _ _ _ _ _ _ _ exK exActiveRun
        "Some exActiveRun"] ex_reroute n e
    by simp
qed

section \<open>Properties of the route builder\<close>

lemma loadsWithin_append:
  "loadsWithin r (xs @ ys) \<longleftrightarrow> loadsWithin r xs \<and> loadsWithin (r - sum_list xs) ys"
  by (induction xs arbitrary: r) (auto simp add: algebra_simps)

lemma loadsWithin_sum:
  "loadsWithin r ds \<Longrightarrow> ds \<noteq> [] \<Longrightarrow> sum_list ds \<le> r"
proof (induction ds arbitrary: r)
  case Nil
  then show ?case by simp
next
  case (Cons d ds)
  show ?case
  proof (cases ds)
    case Nil
    then show ?thesis using Cons.prems by simp
  next
    case (Cons e es)
    then have "sum_list ds \<le> r - d" using Cons.IH[of "r - d"] Cons.prems by simp
    then show ?thesis by simp
  qed
qed

lemma loadsWithin_take: "loadsWithin r ds \<Longrightarrow> loadsWithin r (take k ds)"
  by (induction ds arbitrary: r k) (auto simp add: take_Cons split: nat.splits)

subsection \<open>The annotation loop\<close>

lemma legFromPrev_cong:
  assumes "ctxDistanceMatrix C' = ctxDistanceMatrix C"
    and "ctxAdjustedDurationMatrix C' = ctxAdjustedDurationMatrix C"
    and "ctxLocationIndexMap C' = ctxLocationIndexMap C"
  shows "legFromPrev C' n i p s = legFromPrev C n i p s"
  unfolding legFromPrev_def assms by (rule refl)

lemma annotate_cong:
  assumes "ctxDistanceMatrix C' = ctxDistanceMatrix C"
    and "ctxAdjustedDurationMatrix C' = ctxAdjustedDurationMatrix C"
    and "ctxLocationIndexMap C' = ctxLocationIndexMap C"
    and "ctxDepartureTime C' = ctxDepartureTime C"
  shows "annotate C' n i p cd ct xs = annotate C n i p cd ct xs"
proof (induction xs arbitrary: i p cd ct)
  case Nil
  show ?case by simp
next
  case (Cons s xs)
  show ?case
    by (simp add: legFromPrev_cong[OF assms(1-3)] assms(4) Cons.IH Let_def
        split: sum.splits prod.splits)
qed

lemma annotate_Cons:
  assumes "annotate C n i p cd ct (s # xs) = Inr (ys, D, T)"
  obtains d t zs where "legFromPrev C n i p s = Inr (d, t)"
    and "annotate C n (Suc i) (Some (locationId s)) (cd + d) (ct + t) xs = Inr (zs, D, T)"
    and "ys = s\<lparr>cumulativeDistance := toFixed2 (cd + d), distanceFromPrev := toFixed2 d,
                 arrivalTime := mathRound (ct + t),
                 eta := formatEta (ctxDepartureTime C) (mathRound (ct + t))\<rparr> # zs"
  using assms by (auto simp add: Let_def split: sum.splits prod.splits)

lemma annotate_raw:
  "annotate C n i p cd ct xs = Inr (ys, D, T) \<Longrightarrow> map rawFields ys = map rawFields xs"
proof (induction xs arbitrary: i p cd ct ys)
  case Nil
  then show ?case by simp
next
  case (Cons s xs)
  from Cons.prems obtain d t zs where
    r: "annotate C n (Suc i) (Some (locationId s)) (cd + d) (ct + t) xs = Inr (zs, D, T)"
    and y: "ys = s\<lparr>cumulativeDistance := toFixed2 (cd + d), distanceFromPrev := toFixed2 d,
                 arrivalTime := mathRound (ct + t),
                 eta := formatEta (ctxDepartureTime C) (mathRound (ct + t))\<rparr> # zs"
    by (rule annotate_Cons)
  show ?case using Cons.IH[OF r] y by (simp add: rawFields_def)
qed

lemma annotate_length:
  "annotate C n i p cd ct xs = Inr (ys, D, T) \<Longrightarrow> length ys = length xs"
  using annotate_raw[of C n i p cd ct xs ys D T] by (metis length_map)

lemma annotate_last:
  "annotate C n i p cd ct xs = Inr (ys, D, T) \<Longrightarrow> xs \<noteq> [] \<Longrightarrow>
     arrivalTime (last ys) = mathRound T \<and> eta (last ys) = formatEta (ctxDepartureTime C) (mathRound T)"
proof (induction xs arbitrary: i p cd ct ys)
  case Nil
  then show ?case by simp
next
  case (Cons s xs)
  from Cons.prems(1) obtain d t zs where
    r: "annotate C n (Suc i) (Some (locationId s)) (cd + d) (ct + t) xs = Inr (zs, D, T)"
    and y: "ys = s\<lparr>cumulativeDistance := toFixed2 (cd + d), distanceFromPrev := toFixed2 d,
                 arrivalTime := mathRound (ct + t),
                 eta := formatEta (ctxDepartureTime C) (mathRound (ct + t))\<rparr> # zs"
    by (rule annotate_Cons)
  show ?case
  proof (cases xs)
    case Nil
    then show ?thesis using r y by simp
  next
    case (Cons a as)
    then have "zs \<noteq> []" using annotate_length[OF r] by auto
    then show ?thesis using Cons.IH[OF r] Cons y by simp
  qed
qed

subsection \<open>The loop of one vehicle slot\<close>

lemma greedyLoop_cong:
  assumes "ctxDistanceMatrix C' = ctxDistanceMatrix C"
    and "ctxLocationIndexMap C' = ctxLocationIndexMap C"
    and "ctxNonDepot C' = ctxNonDepot C"
  shows "greedyLoop C' A rem cur ord S = greedyLoop C A rem cur ord S"
  using assms
proof (induction C A rem cur ord S rule: greedyLoop.induct)
  case (1 C A rem cur ord S)
  note eqs = "1.prems"
  show ?case
  proof (cases "findBest (ctxDistanceMatrix C) (ctxLocationIndexMap C) A rem cur (ctxNonDepot C) None")
    case (Inl e)
    then show ?thesis
      by (simp add: greedyLoop.simps[of C'] greedyLoop.simps[of C] eqs)
  next
    case (Inr b)
    show ?thesis
    proof (cases b)
      case None
      then show ?thesis
        using Inr by (simp add: greedyLoop.simps[of C'] greedyLoop.simps[of C] eqs)
    next
      case (Some t)
      obtain best d k where t: "t = (best, d, k)" by (cases t) auto
      have f: "findBest (ctxDistanceMatrix C) (ctxLocationIndexMap C) A rem cur (ctxNonDepot C) None
                 = Inr (Some (best, d, k))"
        using Inr Some t by simp
      have "greedyLoop C' (insert (locId best) A) (rem - orElse (demand best) 0) (Some k) (Suc ord)
              (S @ [newStop best ord []])
            = greedyLoop C (insert (locId best) A) (rem - orElse (demand best) 0) (Some k) (Suc ord)
              (S @ [newStop best ord []])"
        using "1.IH"[OF f refl refl refl eqs] .
      then show ?thesis
        using f by (simp add: greedyLoop.simps[of C' A] greedyLoop.simps[of C A] eqs)
    qed
  qed
qed

text \<open>
  What one run of the slot loop adds: stops made from non-depot locations that were not
  assigned, each with a demand that fits the capacity remaining when it is added.
\<close>

lemma greedyLoop_added:
  assumes "greedyLoop C A rem cur ord S = Inr (S', A', rem', ord')"
  shows "\<exists>added. S' = S @ added
           \<and> loadsWithin rem (map stopDemand added)
           \<and> rem' = rem - sum_list (map stopDemand added)
           \<and> ord' = ord + length added
           \<and> map stopOrder added = [ord ..< ord + length added]
           \<and> (\<forall>s \<in> set added. \<exists>l \<in> set (ctxNonDepot C). s = newStop l (stopOrder s) [])
           \<and> A' = A \<union> locationId ` set added
           \<and> distinct (map locationId added)
           \<and> A \<inter> locationId ` set added = {}"
  using assms
proof (induction C A rem cur ord S rule: greedyLoop.induct)
  case (1 C A rem cur ord S)
  show ?case
  proof (cases "findBest (ctxDistanceMatrix C) (ctxLocationIndexMap C) A rem cur (ctxNonDepot C) None")
    case (Inl e)
    then show ?thesis using "1.prems" by (simp add: greedyLoop.simps[of C A])
  next
    case (Inr b)
    show ?thesis
    proof (cases b)
      case None
      then have "S' = S" "A' = A" "rem' = rem" "ord' = ord"
        using Inr "1.prems" by (simp_all add: greedyLoop.simps[of C A])
      then show ?thesis by (intro exI[of _ "[]"]) simp
    next
      case (Some t)
      obtain best d k where t: "t = (best, d, k)" by (cases t) auto
      have f: "findBest (ctxDistanceMatrix C) (ctxLocationIndexMap C) A rem cur (ctxNonDepot C) None
                 = Inr (Some (best, d, k))"
        using Inr Some t by simp
      let ?s = "newStop best ord []"
      have rec: "greedyLoop C (insert (locId best) A) (rem - orElse (demand best) 0) (Some k) (Suc ord)
              (S @ [?s]) = Inr (S', A', rem', ord')"
        using f "1.prems" by (simp add: greedyLoop.simps[of C A])
      from "1.IH"[OF f refl refl refl rec] obtain added where
        a: "S' = (S @ [?s]) @ added"
        "loadsWithin (rem - orElse (demand best) 0) (map stopDemand added)"
        "rem' = rem - orElse (demand best) 0 - sum_list (map stopDemand added)"
        "ord' = Suc ord + length added"
        "map stopOrder added = [Suc ord ..< Suc ord + length added]"
        "\<forall>s \<in> set added. \<exists>l \<in> set (ctxNonDepot C). s = newStop l (stopOrder s) []"
        "A' = insert (locId best) A \<union> locationId ` set added"
        "distinct (map locationId added)"
        "insert (locId best) A \<inter> locationId ` set added = {}"
        by blast
      have fresh: "best \<in> set (ctxNonDepot C)" "locId best \<notin> A" "orElse (demand best) 0 \<le> rem"
        using findBest_fresh(1,2,3)[OF f] .
      have sd: "stopDemand ?s = orElse (demand best) 0" "locationId ?s = locId best" "stopOrder ?s = ord"
        by (simp_all add: newStop_def)
      show ?thesis
      proof (intro exI[of _ "?s # added"] conjI)
        show "S' = S @ ?s # added" using a(1) by simp
        show "loadsWithin rem (map stopDemand (?s # added))" using a(2) fresh(3) sd by simp
        show "rem' = rem - sum_list (map stopDemand (?s # added))" using a(3) sd by simp
        show "ord' = ord + length (?s # added)" using a(4) by simp
        have "[ord ..< ord + length (?s # added)] = ord # [Suc ord ..< Suc ord + length added]"
          by (subst upt_rec) simp
        then show "map stopOrder (?s # added) = [ord ..< ord + length (?s # added)]"
          using a(5) sd by simp
        show "\<forall>s \<in> set (?s # added). \<exists>l \<in> set (ctxNonDepot C). s = newStop l (stopOrder s) []"
          using a(6) fresh(1) sd by auto
        show "A' = A \<union> locationId ` set (?s # added)" using a(7) sd by auto
        show "distinct (map locationId (?s # added))" using a(8) a(9) sd by auto
        show "A \<inter> locationId ` set (?s # added) = {}" using a(9) fresh(2) sd by auto
      qed
    qed
  qed
qed


subsection \<open>Routes\<close>

lemma buildRoute_Inr:
  assumes "buildRoute C vs S rem ord rs = Inr r"
  obtains ys D T where
    "annotate C (Suc (length S)) 0 None 0 0 (S @ [newStop (ctxDepot C) ord []]) = Inr (ys, D, T)"
    and "r = \<lparr>routeVehicle = slotId vs, vehicleName = slotName vs, stops = ys,
               distance = D,
               duration = (if ctxFixedDelayMinutes C > 0 \<and> length rs = 0
                           then of_int (mathRound T) + ctxFixedDelayMinutes C
                           else of_int (mathRound T)),
               totalCapacity = slotCapacity vs - rem,
               geometry = ctxGetRouteGeometry C ys (ctxIncidentLocation C),
               usingRealRoadData = ctxUsingRealRoadData C\<rparr>"
  using assms by (auto simp add: buildRoute_def Let_def split: sum.splits prod.splits)

lemma vehicleLoop_built:
  assumes "vehicleLoop C slots rs A = Inr out"
  shows "\<exists>new. out = rs @ new
           \<and> (\<forall>i < length new. \<exists>vs \<in> set slots. builtFor C vs (rs @ take i new) (new ! i))"
  using assms
proof (induction slots arbitrary: rs A)
  case Nil
  then show ?case by simp
next
  case (Cons vs rest)
  let ?first = "newStop (ctxDepot C) 0 ''8:00 AM''"
  from Cons.prems obtain S' A' rem' ord' where
    g: "greedyLoop C A (slotCapacity vs) (ctxDepotIndex C) 1 [?first] = Inr (S', A', rem', ord')"
    by (auto split: sum.splits)
  from greedyLoop_added[OF g] obtain added where
    a: "S' = [?first] @ added" "loadsWithin (slotCapacity vs) (map stopDemand added)"
       "rem' = slotCapacity vs - sum_list (map stopDemand added)"
       "ord' = 1 + length added"
       "\<forall>s \<in> set added. \<exists>l \<in> set (ctxNonDepot C). s = newStop l (stopOrder s) []"
    by blast
  show ?case
  proof (cases "added = []")
    case True
    then have len: "\<not> length S' > 1" using a(1) by simp
    show ?thesis
    proof (cases "card A' = length (ctxNonDepot C)")
      case True
      then have "out = rs" using Cons.prems g len by simp
      then show ?thesis by simp
    next
      case False
      then have "vehicleLoop C rest rs A' = Inr out" using Cons.prems g len by simp
      from Cons.IH[OF this] show ?thesis by auto
    qed
  next
    case False
    then have len: "length S' > 1" using a(1) by simp
    from Cons.prems g len obtain r where
      b: "buildRoute C vs S' rem' ord' rs = Inr r"
      by (auto split: sum.splits)
    have bf: "builtFor C vs rs r"
      unfolding builtFor_def using False a b by (intro exI[of _ added]) simp
    show ?thesis
    proof (cases "card A' = length (ctxNonDepot C)")
      case True
      then have "out = rs @ [r]" using Cons.prems g len b by simp
      then show ?thesis using bf by (intro exI[of _ "[r]"]) simp
    next
      case False
      then have "vehicleLoop C rest (rs @ [r]) A' = Inr out" using Cons.prems g len b by simp
      from Cons.IH[OF this] obtain new where
        n: "out = (rs @ [r]) @ new"
           "\<forall>i < length new. \<exists>vs \<in> set rest. builtFor C vs ((rs @ [r]) @ take i new) (new ! i)"
        by blast
      show ?thesis
      proof (intro exI[of _ "r # new"] conjI allI impI)
        show "out = rs @ r # new" using n(1) by simp
        fix i assume "i < length (r # new)"
        then show "\<exists>vs\<in>set (vs # rest). builtFor C vs (rs @ take i (r # new)) ((r # new) ! i)"
          using bf n(2) by (cases i) auto
      qed
    qed
  qed
qed


lemma loadsWithin_nonneg:
  "loadsWithin r ds \<Longrightarrow> \<forall>d \<in> set ds. 0 \<le> d \<Longrightarrow> \<forall>d \<in> set ds. d \<le> r"
proof (induction ds arbitrary: r)
  case Nil
  then show ?case by simp
next
  case (Cons d ds)
  then have "\<forall>e \<in> set ds. e \<le> r - d" by simp
  then show ?case using Cons.prems by fastforce
qed

lemma map_eq_ends:
  assumes "map f ys = a # map f xs @ [c]"
  obtains y0 mids yl where "ys = y0 # mids @ [yl]" "f y0 = a" "map f mids = map f xs" "f yl = c"
proof -
  from assms obtain y0 rest where 1: "ys = y0 # rest" "f y0 = a" "map f rest = map f xs @ [c]"
    by (auto simp add: map_eq_Cons_conv)
  from 1(3) obtain mids l where 2: "rest = mids @ l" "map f mids = map f xs" "map f l = [c]"
    by (auto simp add: map_eq_append_conv)
  from 2(3) obtain yl where 3: "l = [yl]" "f yl = c" by (auto simp add: map_eq_Cons_conv)
  show ?thesis using that[of y0 mids yl] 1 2 3 by simp
qed

lemma builtFor_shape:
  assumes "builtFor C vs before r"
  obtains added y0 mids yl D T where
    "added \<noteq> []"
    "loadsWithin (slotCapacity vs) (map stopDemand added)"
    "\<forall>s \<in> set added. \<exists>l \<in> set (ctxNonDepot C). s = newStop l (stopOrder s) []"
    "annotate C (length added + 2) 0 None 0 0
       (newStop (ctxDepot C) 0 ''8:00 AM'' # added @ [newStop (ctxDepot C) (Suc (length added)) []])
       = Inr (stops r, D, T)"
    "stops r = y0 # mids @ [yl]"
    "rawFields y0 = rawFields (newStop (ctxDepot C) 0 [])"
    "map rawFields mids = map rawFields added"
    "rawFields yl = rawFields (newStop (ctxDepot C) (Suc (length added)) [])"
    "routeVehicle r = slotId vs" "vehicleName r = slotName vs"
    "totalCapacity r = sum_list (map stopDemand added)"
    "distance r = D"
    "duration r = of_int (mathRound T)
                  + (if ctxFixedDelayMinutes C > 0 \<and> before = [] then ctxFixedDelayMinutes C else 0)"
    "geometry r = ctxGetRouteGeometry C (stops r) (ctxIncidentLocation C)"
    "usingRealRoadData r = ctxUsingRealRoadData C"
proof -
  let ?first = "newStop (ctxDepot C) 0 ''8:00 AM''"
  from assms obtain added where
    a: "added \<noteq> []" "loadsWithin (slotCapacity vs) (map stopDemand added)"
       "\<forall>s \<in> set added. \<exists>l \<in> set (ctxNonDepot C). s = newStop l (stopOrder s) []"
       "buildRoute C vs (?first # added)
             (slotCapacity vs - sum_list (map stopDemand added)) (Suc (length added)) before = Inr r"
    unfolding builtFor_def by blast
  from a(4) obtain ys D T where
    b: "annotate C (Suc (length (?first # added))) 0 None 0 0
          ((?first # added) @ [newStop (ctxDepot C) (Suc (length added)) []]) = Inr (ys, D, T)"
    and r: "r = \<lparr>routeVehicle = slotId vs, vehicleName = slotName vs, stops = ys,
               distance = D,
               duration = (if ctxFixedDelayMinutes C > 0 \<and> length before = 0
                           then of_int (mathRound T) + ctxFixedDelayMinutes C
                           else of_int (mathRound T)),
               totalCapacity = slotCapacity vs - (slotCapacity vs - sum_list (map stopDemand added)),
               geometry = ctxGetRouteGeometry C ys (ctxIncidentLocation C),
               usingRealRoadData = ctxUsingRealRoadData C\<rparr>"
    by (rule buildRoute_Inr)
  have raw: "map rawFields ys = rawFields ?first # map rawFields added
                                  @ [rawFields (newStop (ctxDepot C) (Suc (length added)) [])]"
    using annotate_raw[OF b] by simp
  from raw obtain y0 mids yl where
    s: "ys = y0 # mids @ [yl]" "rawFields y0 = rawFields ?first"
       "map rawFields mids = map rawFields added"
       "rawFields yl = rawFields (newStop (ctxDepot C) (Suc (length added)) [])"
    by (rule map_eq_ends)
  have f0: "rawFields ?first = rawFields (newStop (ctxDepot C) 0 [])"
    by (simp add: rawFields_def newStop_def)
  show ?thesis
    using that[of added D T y0 mids yl] a(1-3) b s f0 r by simp
qed

lemma rawFields_eq:
  "rawFields s = rawFields t \<Longrightarrow> locationId s = locationId t \<and> stopDemand s = stopDemand t
     \<and> stopOrder s = stopOrder t \<and> locationName s = locationName t
     \<and> stopLatitude s = stopLatitude t \<and> stopLongitude s = stopLongitude t"
  by (simp add: rawFields_def)

lemma map_rawFields_eq:
  assumes "map rawFields xs = map rawFields ys"
  shows "map locationId xs = map locationId ys" and "map stopDemand xs = map stopDemand ys"
proof -
  have "map fst (map rawFields xs) = map fst (map rawFields ys)"
    using assms by simp
  then show "map locationId xs = map locationId ys"
    by (simp add: rawFields_def comp_def)
  have "map (\<lambda>(a, b, c, d, e, f). e) (map rawFields xs) = map (\<lambda>(a, b, c, d, e, f). e) (map rawFields ys)"
    using assms by simp
  then show "map stopDemand xs = map stopDemand ys"
    by (simp add: rawFields_def comp_def)
qed


text \<open>What a route built for a slot says about capacity.\<close>

lemma builtFor_capacity:
  assumes "builtFor C vs before r"
    and nd: "\<forall>l \<in> set (ctxNonDepot C). locId l \<noteq> locId (ctxDepot C)"
  shows "routeVehicle r = slotId vs \<and> vehicleName r = slotName vs
       \<and> stops r = hd (stops r) # nonDepotStops (ctxDepot C) r @ [last (stops r)]
       \<and> locationId (hd (stops r)) = locId (ctxDepot C)
       \<and> locationId (last (stops r)) = locId (ctxDepot C)
       \<and> nonDepotStops (ctxDepot C) r \<noteq> []
       \<and> sum_list (map stopDemand (nonDepotStops (ctxDepot C) r)) \<le> slotCapacity vs
       \<and> totalCapacity r = sum_list (map stopDemand (nonDepotStops (ctxDepot C) r))
       \<and> loadsWithin (slotCapacity vs) (map stopDemand (nonDepotStops (ctxDepot C) r))
       \<and> (\<forall>s \<in> set (nonDepotStops (ctxDepot C) r). \<exists>l \<in> set (ctxNonDepot C).
             locationId s = locId l \<and> stopDemand s = demandOf l)"
proof -
  from assms(1) obtain added y0 mids yl D T where
    a: "added \<noteq> []"
       "loadsWithin (slotCapacity vs) (map stopDemand added)"
       "\<forall>s \<in> set added. \<exists>l \<in> set (ctxNonDepot C). s = newStop l (stopOrder s) []"
       "stops r = y0 # mids @ [yl]"
       "rawFields y0 = rawFields (newStop (ctxDepot C) 0 [])"
       "map rawFields mids = map rawFields added"
       "rawFields yl = rawFields (newStop (ctxDepot C) (Suc (length added)) [])"
       "routeVehicle r = slotId vs" "vehicleName r = slotName vs"
       "totalCapacity r = sum_list (map stopDemand added)"
    by (rule builtFor_shape)
  have ids: "map locationId mids = map locationId added" and dem: "map stopDemand mids = map stopDemand added"
    using map_rawFields_eq[OF a(6)] by simp_all
  have y0: "locationId y0 = locId (ctxDepot C)" using rawFields_eq[OF a(5)] by (simp add: newStop_def)
  have yl: "locationId yl = locId (ctxDepot C)" using rawFields_eq[OF a(7)] by (simp add: newStop_def)
  have addedId: "\<forall>s \<in> set added. locationId s \<noteq> locId (ctxDepot C)"
  proof
    fix s assume "s \<in> set added"
    then obtain l where "l \<in> set (ctxNonDepot C)" "s = newStop l (stopOrder s) []" using a(3) by blast
    then have "locationId s = locId l" by (metis newStop_def stop.select_convs(1))
    then show "locationId s \<noteq> locId (ctxDepot C)" using nd \<open>l \<in> set (ctxNonDepot C)\<close> by simp
  qed
  have "\<forall>i \<in> set (map locationId added). i \<noteq> locId (ctxDepot C)" using addedId by simp
  then have "\<forall>i \<in> set (map locationId mids). i \<noteq> locId (ctxDepot C)" using ids by simp
  then have midsId: "\<forall>s \<in> set mids. locationId s \<noteq> locId (ctxDepot C)" by simp
  have nds: "nonDepotStops (ctxDepot C) r = mids"
    using midsId y0 yl by (simp add: nonDepotStops_def a(4))
  have ne: "mids \<noteq> []" using a(1) a(6) by (metis map_is_Nil_conv)
  have origin: "\<exists>l \<in> set (ctxNonDepot C). locationId s = locId l \<and> stopDemand s = demandOf l"
    if "s \<in> set mids" for s
  proof -
    from that have "rawFields s \<in> set (map rawFields added)" using a(6) by (metis image_eqI set_map)
    then obtain t where t: "t \<in> set added" "rawFields s = rawFields t" by auto
    then obtain l where l: "l \<in> set (ctxNonDepot C)" "t = newStop l (stopOrder t) []" using a(3) by blast
    have "locationId t = locId l \<and> stopDemand t = demandOf l"
      by (subst (1 2) l(2)) (simp add: newStop_def demandOf_def)
    then show ?thesis using rawFields_eq[OF t(2)] l(1) by auto
  qed
  have sumle: "sum_list (map stopDemand mids) \<le> slotCapacity vs"
    using loadsWithin_sum[OF a(2)] a(1) dem by simp
  show ?thesis
    using a(2) a(8,9,10) nds ne y0 yl dem origin sumle by (simp add: a(4))
qed

lemma makeContext_fields:
  "ctxDepot (makeContext K locations depot m dep il d) = depot"
  "ctxNonDepot (makeContext K locations depot m dep il d) = filter (\<lambda>l. locId l \<noteq> locId depot) locations"
  "ctxFixedDelayMinutes (makeContext K locations depot m dep il d) = d"
  "ctxIncidentLocation (makeContext K locations depot m dep il d) = il"
  "ctxDepartureTime (makeContext K locations depot m dep il d) = dep"
  "ctxLocationIndexMap (makeContext K locations depot m dep il d) = locationIndexMap locations"
  by (simp_all add: makeContext_def Let_def)

lemma run_built:
  assumes "runORToolsOptimization K vehicles locations depot m dep il d = Inr rs"
    and "i < length rs"
  shows "\<exists>vs \<in> set (expandVehicles vehicles).
           builtFor (makeContext K locations depot m dep il d) vs (take i rs) (rs ! i)"
  using vehicleLoop_built[OF assms(1)[unfolded runORToolsOptimization_def]] assms(2) by auto

text \<open>
  C5: every route the builder returns belongs to one of the expanded vehicle slots; its
  stops are the depot, then the non-depot stops, then the depot; the demands of the
  non-depot stops sum to at most the slot's capacity, and \<open>totalCapacity\<close> is that sum
  (the slot capacity minus what remained). Each non-depot stop is made from a non-depot
  location of the request and had a demand of at most the capacity that remained when it
  was added (\<open>loadsWithin\<close>), so no location is put on a route it does not fit; when no
  demand is negative, a location whose demand exceeds the capacity of every slot
  is on no route.
\<close>

theorem C5_capacity:
  assumes "runORToolsOptimization K vehicles locations depot m dep il d = Inr rs"
    and "r \<in> set rs"
  shows "\<exists>vs \<in> set (expandVehicles vehicles).
           routeVehicle r = slotId vs \<and> vehicleName r = slotName vs
         \<and> stops r = hd (stops r) # nonDepotStops depot r @ [last (stops r)]
         \<and> locationId (hd (stops r)) = locId depot \<and> locationId (last (stops r)) = locId depot
         \<and> nonDepotStops depot r \<noteq> []
         \<and> sum_list (map stopDemand (nonDepotStops depot r)) \<le> slotCapacity vs
         \<and> totalCapacity r = sum_list (map stopDemand (nonDepotStops depot r))
         \<and> totalCapacity r = slotCapacity vs - (slotCapacity vs - sum_list (map stopDemand (nonDepotStops depot r)))
         \<and> loadsWithin (slotCapacity vs) (map stopDemand (nonDepotStops depot r))
         \<and> (\<forall>s \<in> set (nonDepotStops depot r). \<exists>l \<in> set locations.
               locId l \<noteq> locId depot \<and> locationId s = locId l \<and> stopDemand s = demandOf l)
         \<and> ((\<forall>l \<in> set locations. 0 \<le> demandOf l) \<longrightarrow>
               (\<forall>l \<in> set locations. (\<forall>v \<in> set (expandVehicles vehicles). slotCapacity v < demandOf l) \<longrightarrow>
                  (\<forall>s \<in> set (nonDepotStops depot r).
                     \<not> (locationId s = locId l \<and> stopDemand s = demandOf l))))"
proof -
  let ?C = "makeContext K locations depot m dep il d"
  from assms(2) obtain i where i: "i < length rs" "r = rs ! i" by (auto simp add: in_set_conv_nth)
  from run_built[OF assms(1) i(1)] obtain vs where
    vs: "vs \<in> set (expandVehicles vehicles)" "builtFor ?C vs (take i rs) r"
    using i(2) by blast
  have nd: "\<forall>l \<in> set (ctxNonDepot ?C). locId l \<noteq> locId (ctxDepot ?C)"
    by (simp add: makeContext_fields)
  note cap = builtFor_capacity[OF vs(2) nd, unfolded makeContext_fields]
  have origin: "\<forall>s \<in> set (nonDepotStops depot r). \<exists>l \<in> set locations.
               locId l \<noteq> locId depot \<and> locationId s = locId l \<and> stopDemand s = demandOf l"
    using cap by auto
  have big: "\<forall>s \<in> set (nonDepotStops depot r). \<not> (locationId s = locId l \<and> stopDemand s = demandOf l)"
    if nn: "\<forall>l \<in> set locations. 0 \<le> demandOf l"
      and l: "l \<in> set locations" "\<forall>v \<in> set (expandVehicles vehicles). slotCapacity v < demandOf l"
    for l
  proof
    fix s assume s: "s \<in> set (nonDepotStops depot r)"
    have "\<forall>x \<in> set (map stopDemand (nonDepotStops depot r)). 0 \<le> x"
      using origin nn by fastforce
    with cap have "\<forall>x \<in> set (map stopDemand (nonDepotStops depot r)). x \<le> slotCapacity vs"
      by (intro loadsWithin_nonneg) simp_all
    then have "stopDemand s \<le> slotCapacity vs" using s by simp
    moreover have "slotCapacity vs < demandOf l" using l(2) vs(1) by simp
    ultimately show "\<not> (locationId s = locId l \<and> stopDemand s = demandOf l)" by simp
  qed
  show ?thesis
    using vs(1) cap origin big by (intro bexI[of _ vs]) auto
qed

theorem C5_capacity_witness:
  "runORToolsOptimization exK exVehicles exLocations exDepot 1 ''08:00'' None 0 = Inr (exBuild 1 None 0)
   \<and> hd (exBuild 1 None 0) \<in> set (exBuild 1 None 0)
   \<and> map (\<lambda>r. map locationId (nonDepotStops exDepot r)) (exBuild 1 None 0) = [[''a''], [''b'']]
   \<and> map slotCapacity (expandVehicles exVehicles) = [10, 15]
   \<and> map demandOf exLocations = [0, 10, 10, 50]
   \<and> map totalCapacity (exBuild 1 None 0) = [10, 10]
   \<and> (\<exists>vs \<in> set (expandVehicles exVehicles).
         routeVehicle (hd (exBuild 1 None 0)) = slotId vs
       \<and> sum_list (map stopDemand (nonDepotStops exDepot (hd (exBuild 1 None 0)))) \<le> slotCapacity vs
       \<and> totalCapacity (hd (exBuild 1 None 0))
           = sum_list (map stopDemand (nonDepotStops exDepot (hd (exBuild 1 None 0)))))"
proof -
  have m: "hd (exBuild 1 None 0) \<in> set (exBuild 1 None 0)" by code_simp
  have 1: "map (\<lambda>r. map locationId (nonDepotStops exDepot r)) (exBuild 1 None 0) = [[''a''], [''b'']]"
    by code_simp
  have 2: "map slotCapacity (expandVehicles exVehicles) = [10, 15]"
    by (simp add: ex_slots exSlots_def)
  have 3: "map demandOf exLocations = [0, 10, 10, 50]" by code_simp
  have 4: "map totalCapacity (exBuild 1 None 0) = [10, 10]" by code_simp
  from C5_capacity[OF ex_run(1) m] obtain vs where
    "vs \<in> set (expandVehicles exVehicles)"
    "routeVehicle (hd (exBuild 1 None 0)) = slotId vs"
    "sum_list (map stopDemand (nonDepotStops exDepot (hd (exBuild 1 None 0)))) \<le> slotCapacity vs"
    "totalCapacity (hd (exBuild 1 None 0))
           = sum_list (map stopDemand (nonDepotStops exDepot (hd (exBuild 1 None 0))))"
    by blast
  then show ?thesis using ex_run(1) m 1 2 3 4 by blast
qed

subsection \<open>The fixed delay\<close>

lemma delayFirst_snoc:
  "delayFirst d (xs @ [x]) = (if xs = [] then [x + d] else delayFirst d xs @ [x])"
  by (cases xs) simp_all

lemma buildRoute_delay:
  assumes "d > 0" and "ctxFixedDelayMinutes C = 0"
  shows "buildRoute (C\<lparr>ctxFixedDelayMinutes := d, ctxIncidentLocation := il\<rparr>) vs S rem ord rsd =
           (case buildRoute C vs S rem ord rs0 of
              Inl e \<Rightarrow> Inl e
            | Inr r \<Rightarrow> Inr (r\<lparr>duration := duration r + (if length rsd = 0 then d else 0),
                              geometry := ctxGetRouteGeometry C (stops r) il\<rparr>))"
proof -
  let ?C = "C\<lparr>ctxFixedDelayMinutes := d, ctxIncidentLocation := il\<rparr>"
  have a: "annotate ?C n i p cd ct xs = annotate C n i p cd ct xs" for n i p cd ct xs
    by (rule annotate_cong) simp_all
  show ?thesis
    using assms by (simp add: buildRoute_def a Let_def split: sum.splits prod.splits)
qed

lemma vehicleLoop_delay:
  assumes "d > 0" and "ctxFixedDelayMinutes C = 0"
    and "map exceptDelay rsd = map exceptDelay rs0"
    and "map duration rsd = delayFirst d (map duration rs0)"
  shows "case vehicleLoop C slots rs0 A of
           Inl e \<Rightarrow> vehicleLoop (C\<lparr>ctxFixedDelayMinutes := d, ctxIncidentLocation := il\<rparr>) slots rsd A = Inl e
         | Inr out0 \<Rightarrow>
             (\<exists>outd. vehicleLoop (C\<lparr>ctxFixedDelayMinutes := d, ctxIncidentLocation := il\<rparr>) slots rsd A = Inr outd
                \<and> map exceptDelay outd = map exceptDelay out0
                \<and> map duration outd = delayFirst d (map duration out0))"
  using assms(3,4)
proof (induction slots arbitrary: rsd rs0 A)
  case Nil
  then show ?case by simp
next
  case (Cons vs rest)
  let ?C = "C\<lparr>ctxFixedDelayMinutes := d, ctxIncidentLocation := il\<rparr>"
  let ?first = "newStop (ctxDepot C) 0 ''8:00 AM''"
  have g: "greedyLoop ?C A r c k S = greedyLoop C A r c k S" for A r c k S
    by (rule greedyLoop_cong) simp_all
  have len: "length rsd = length rs0" using Cons.prems(1) by (metis length_map)
  show ?case
  proof (cases "greedyLoop C A (slotCapacity vs) (ctxDepotIndex C) 1 [?first]")
    case (Inl e)
    then show ?thesis by (simp add: g)
  next
    case (Inr res)
    obtain S' A' rem' ord' where res: "res = (S', A', rem', ord')" by (cases res) auto
    show ?thesis
    proof (cases "length S' > 1")
      case False
      show ?thesis
      proof (cases "card A' = length (ctxNonDepot C)")
        case True
        then show ?thesis using Inr res False Cons.prems by (simp add: g)
      next
        case ncard: False
        have eq0: "vehicleLoop C (vs # rest) rs0 A = vehicleLoop C rest rs0 A'"
          using Inr res False ncard by simp
        have eqd: "vehicleLoop ?C (vs # rest) rsd A = vehicleLoop ?C rest rsd A'"
          using Inr res False ncard by (simp add: g)
        show ?thesis unfolding eq0 eqd by (rule Cons.IH[OF Cons.prems])
      qed
    next
      case True
      note bd = buildRoute_delay[OF assms(1,2), of il vs S' rem' ord' rsd rs0]
      show ?thesis
      proof (cases "buildRoute C vs S' rem' ord' rs0")
        case (Inl e)
        then show ?thesis using Inr res True bd by (simp add: g)
      next
        case r0: (Inr r0)
        let ?rd = "r0\<lparr>duration := duration r0 + (if length rsd = 0 then d else 0),
                       geometry := ctxGetRouteGeometry C (stops r0) il\<rparr>"
        have brd: "buildRoute ?C vs S' rem' ord' rsd = Inr ?rd" using bd r0 by simp
        have "exceptDelay ?rd = exceptDelay r0" by (simp add: exceptDelay_def)
        then have e1: "map exceptDelay (rsd @ [?rd]) = map exceptDelay (rs0 @ [r0])"
          using Cons.prems(1) by simp
        have e2: "map duration (rsd @ [?rd]) = delayFirst d (map duration (rs0 @ [r0]))"
          using Cons.prems(2) len by (simp add: delayFirst_snoc)
        show ?thesis
        proof (cases "card A' = length (ctxNonDepot C)")
          case True
          then show ?thesis using Inr res \<open>length S' > 1\<close> r0 brd e1 e2 by (simp add: g)
        next
          case ncard: False
          have eq0: "vehicleLoop C (vs # rest) rs0 A = vehicleLoop C rest (rs0 @ [r0]) A'"
            using Inr res \<open>length S' > 1\<close> r0 ncard by simp
          have eqd: "vehicleLoop ?C (vs # rest) rsd A = vehicleLoop ?C rest (rsd @ [?rd]) A'"
            using Inr res \<open>length S' > 1\<close> brd ncard by (simp add: g)
          show ?thesis unfolding eq0 eqd by (rule Cons.IH[OF e1 e2])
        qed
      qed
    qed
  qed
qed

lemma makeContext_delay:
  "makeContext K locations depot m dep il d
     = (makeContext K locations depot m dep il0 0)\<lparr>ctxFixedDelayMinutes := d, ctxIncidentLocation := il\<rparr>"
  by (simp add: makeContext_def Let_def)

lemma run_delay:
  assumes "d > 0"
  shows "case runORToolsOptimization K vehicles locations depot m dep il0 0 of
           Inl e \<Rightarrow> runORToolsOptimization K vehicles locations depot m dep il d = Inl e
         | Inr rs0 \<Rightarrow>
             (\<exists>rs. runORToolsOptimization K vehicles locations depot m dep il d = Inr rs
                \<and> map exceptDelay rs = map exceptDelay rs0
                \<and> map duration rs = delayFirst d (map duration rs0))"
  unfolding runORToolsOptimization_def makeContext_delay[of K locations depot m dep il d il0]
  by (rule vehicleLoop_delay[OF assms]) (simp_all add: makeContext_fields)

lemma exceptDelay_fields:
  assumes "map exceptDelay rs = map exceptDelay rs0"
  shows "length rs = length rs0" and "map stops rs = map stops rs0"
    and "map distance rs = map distance rs0" and "map totalCapacity rs = map totalCapacity rs0"
    and "map routeVehicle rs = map routeVehicle rs0" and "map vehicleName rs = map vehicleName rs0"
    and "map usingRealRoadData rs = map usingRealRoadData rs0"
proof -
  show "length rs = length rs0" using assms by (metis length_map)
  have "map f (map exceptDelay rs) = map f (map exceptDelay rs0)" for f :: "route \<Rightarrow> 'a"
    using assms by simp
  then have m: "map (\<lambda>r. f (exceptDelay r)) rs = map (\<lambda>r. f (exceptDelay r)) rs0" for f :: "route \<Rightarrow> 'a"
    by (simp add: comp_def)
  show "map stops rs = map stops rs0" using m[of stops] by (simp add: exceptDelay_def)
  show "map distance rs = map distance rs0" using m[of distance] by (simp add: exceptDelay_def)
  show "map totalCapacity rs = map totalCapacity rs0" using m[of totalCapacity] by (simp add: exceptDelay_def)
  show "map routeVehicle rs = map routeVehicle rs0" using m[of routeVehicle] by (simp add: exceptDelay_def)
  show "map vehicleName rs = map vehicleName rs0" using m[of vehicleName] by (simp add: exceptDelay_def)
  show "map usingRealRoadData rs = map usingRealRoadData rs0"
    using m[of usingRealRoadData] by (simp add: exceptDelay_def)
qed

lemma foldl_add_sum:
  "foldl (\<lambda>total r. total + f r) a rs = a + sum_list (map f rs)" for a :: real
  by (induction rs arbitrary: a) (simp_all add: algebra_simps)

lemma sumDuration_sum: "sumDuration rs = sum_list (map duration rs)"
  by (simp add: sumDuration_def foldl_add_sum)

lemma sumDistance_sum: "sumDistance rs = sum_list (map distance rs)"
  by (simp add: sumDistance_def foldl_add_sum)

lemma sum_delayFirst: "xs \<noteq> [] \<Longrightarrow> sum_list (delayFirst d xs) = sum_list xs + d"
  by (cases xs) simp_all

lemma delayFirst_parts:
  assumes "map duration rs = delayFirst d (map duration rs0)"
  shows "map duration (tl rs) = map duration (tl rs0)"
    and "rs \<noteq> [] \<Longrightarrow> duration (hd rs) = duration (hd rs0) + d"
  using assms by (cases rs; cases rs0; simp)+

lemma run_durations:
  assumes "runORToolsOptimization K vehicles locations depot m dep il d = Inr rs"
    and "i < length rs"
  shows "duration (rs ! i) = of_int (arrivalTime (last (stops (rs ! i))))
                               + (if d > 0 \<and> i = 0 then d else 0)"
proof -
  let ?C = "makeContext K locations depot m dep il d"
  from run_built[OF assms] obtain vs where b: "builtFor ?C vs (take i rs) (rs ! i)" by blast
  from b obtain added D T where
    a: "annotate ?C (length added + 2) 0 None 0 0
          (newStop (ctxDepot ?C) 0 ''8:00 AM'' # added @ [newStop (ctxDepot ?C) (Suc (length added)) []])
          = Inr (stops (rs ! i), D, T)"
    and du: "duration (rs ! i) = of_int (mathRound T)
                  + (if ctxFixedDelayMinutes ?C > 0 \<and> take i rs = [] then ctxFixedDelayMinutes ?C else 0)"
    by (rule builtFor_shape)
  have "arrivalTime (last (stops (rs ! i))) = mathRound T"
    using annotate_last[OF a] by simp
  moreover have "take i rs = [] \<longleftrightarrow> i = 0" using assms(2) by (cases rs) auto
  ultimately show ?thesis using du by (simp add: makeContext_fields)
qed

text \<open>
  C10: for a positive fixed delay, the run with the delay and the run with zero delay
  (whatever incident point either is given) fail alike or return route lists of the same
  length in which every route has the same stop list (so the same cumulativeDistance,
  distanceFromPrev, arrivalTime and eta at every stop), distance, vehicle, capacity used
  and data-source flag; every route but the first has the same duration, and the first
  route's duration is larger by exactly the delay. Only the duration of the first route
  (and the geometry, which is fetched with the incident point) can differ.
\<close>

theorem C10_delay_frame:
  assumes "d > 0"
    and "runORToolsOptimization K vehicles locations depot m dep il d = Inr rs"
  shows "\<exists>rs0. runORToolsOptimization K vehicles locations depot m dep il0 0 = Inr rs0
           \<and> length rs = length rs0
           \<and> map stops rs = map stops rs0
           \<and> map distance rs = map distance rs0
           \<and> map totalCapacity rs = map totalCapacity rs0
           \<and> map routeVehicle rs = map routeVehicle rs0
           \<and> map vehicleName rs = map vehicleName rs0
           \<and> map usingRealRoadData rs = map usingRealRoadData rs0
           \<and> map duration (tl rs) = map duration (tl rs0)
           \<and> (rs \<noteq> [] \<longrightarrow> duration (hd rs) = duration (hd rs0) + d)
           \<and> map exceptDelay rs = map exceptDelay rs0"
proof (cases "runORToolsOptimization K vehicles locations depot m dep il0 0")
  case (Inl e)
  then show ?thesis
    using run_delay[OF assms(1), where K=K and vehicles=vehicles and locations=locations
        and depot=depot and m=m and dep=dep and ?il0.0=il0 and il=il] assms(2)
    by simp
next
  case (Inr rs0)
  then have e: "map exceptDelay rs = map exceptDelay rs0"
    and du: "map duration rs = delayFirst d (map duration rs0)"
    using run_delay[OF assms(1), where K=K and vehicles=vehicles and locations=locations
        and depot=depot and m=m and dep=dep and ?il0.0=il0 and il=il] assms(2) by auto
  show ?thesis
    using Inr e exceptDelay_fields[OF e] delayFirst_parts[OF du] by (intro exI[of _ rs0]) simp
qed

theorem C10_delay_frame_witness:
  "(0::real) < 60
   \<and> runORToolsOptimization exK exVehicles exLocations exDepot 1 ''08:00'' (Some exMidpoint) 60
       = Inr (exBuild 1 (Some exMidpoint) 60)
   \<and> runORToolsOptimization exK exVehicles exLocations exDepot 1 ''08:00'' None 0
       = Inr (exBuild 1 None 0)
   \<and> map stops (exBuild 1 (Some exMidpoint) 60) = map stops (exBuild 1 None 0)
   \<and> map distance (exBuild 1 (Some exMidpoint) 60) = map distance (exBuild 1 None 0)
   \<and> map duration (tl (exBuild 1 (Some exMidpoint) 60)) = map duration (tl (exBuild 1 None 0))
   \<and> duration (hd (exBuild 1 (Some exMidpoint) 60)) = duration (hd (exBuild 1 None 0)) + 60
   \<and> map duration (exBuild 1 None 0) = [35, 51]"
proof -
  have ne: "exBuild 1 (Some exMidpoint) 60 \<noteq> []" using ex_shape(2) by auto
  have du: "map duration (exBuild 1 None 0) = [35, 51]" by code_simp
  have pos: "(0::real) < 60" by simp
  from C10_delay_frame[OF pos ex_run(2), of None] obtain rs0 where
    z: "runORToolsOptimization exK exVehicles exLocations exDepot 1 ''08:00'' None 0 = Inr rs0"
       "map stops (exBuild 1 (Some exMidpoint) 60) = map stops rs0"
       "map distance (exBuild 1 (Some exMidpoint) 60) = map distance rs0"
       "map duration (tl (exBuild 1 (Some exMidpoint) 60)) = map duration (tl rs0)"
       "exBuild 1 (Some exMidpoint) 60 \<noteq> [] \<longrightarrow>
          duration (hd (exBuild 1 (Some exMidpoint) 60)) = duration (hd rs0) + 60"
    by blast
  have "rs0 = exBuild 1 None 0" using z(1) ex_run(1) by simp
  then show ?thesis using z(2-5) ne du pos ex_run(1,2) by simp
qed

text \<open>
  C3: for every simulate-incident request that is answered with a run whose route set
  is not empty, the delay applied lies in [30, 300]; the duration of the first route is
  its undelayed duration (the rounded cumulative time, which is the arrival time of its
  closing depot stop) plus the delay; the duration of every other route is its undelayed
  duration; and the total duration of the run is the sum of the undelayed durations plus
  the delay. The undelayed durations are those of the routes the builder returns for the
  same input with zero delay.
\<close>

theorem C3_delay_on_first_route:
  assumes "rerouteOptimization K (Some opt) req = (Json u, st)"
    and "routes u \<noteq> []"
  shows "30 \<le> appliedDelay (askModel K (reqIncidentType req)
                  (orElse (reqAffectedRouteIndex req) 0) (length (routes opt)))
       \<and> appliedDelay (askModel K (reqIncidentType req)
                  (orElse (reqAffectedRouteIndex req) 0) (length (routes opt))) \<le> 300
       \<and> duration (hd (routes u)) = of_int (arrivalTime (last (stops (hd (routes u)))))
            + appliedDelay (askModel K (reqIncidentType req)
                  (orElse (reqAffectedRouteIndex req) 0) (length (routes opt)))
       \<and> (\<forall>r \<in> set (tl (routes u)). duration r = of_int (arrivalTime (last (stops r))))
       \<and> totalDuration u = sum_list (map (\<lambda>r. of_int (arrivalTime (last (stops r)))) (routes u))
            + appliedDelay (askModel K (reqIncidentType req)
                  (orElse (reqAffectedRouteIndex req) 0) (length (routes opt)))
       \<and> (\<exists>depot rs0.
             find isDepot (optLocations opt) = Some depot
           \<and> runORToolsOptimization K (optVehicles opt) (optLocations opt) depot 1
                 (departureOrDefault (departureTime opt)) (finalIncidentLocation opt req) 0 = Inr rs0
           \<and> map stops (routes u) = map stops rs0
           \<and> (\<forall>r \<in> set rs0. duration r = of_int (arrivalTime (last (stops r))))
           \<and> totalDuration u = sumDuration rs0
                + appliedDelay (askModel K (reqIncidentType req)
                    (orElse (reqAffectedRouteIndex req) 0) (length (routes opt))))"
proof -
  define delay where "delay = appliedDelay (askModel K (reqIncidentType req)
                  (orElse (reqAffectedRouteIndex req) 0) (length (routes opt)))"
  have range: "30 \<le> delay" "delay \<le> 300" using appliedDelay_range unfolding delay_def by blast+
  then have pos: "delay > 0" by simp
  from reroute_Json(3)[OF assms(1)] obtain depot where
    dp: "find isDepot (optLocations opt) = Some depot"
    and run: "runORToolsOptimization K (optVehicles opt) (optLocations opt) depot 1
                 (departureOrDefault (departureTime opt)) (finalIncidentLocation opt req) delay
              = Inr (routes u)"
    and tot: "totalDuration u = sumDuration (routes u)"
    unfolding delay_def by auto
  have rule: "duration (routes u ! i) = of_int (arrivalTime (last (stops (routes u ! i))))
                + (if i = 0 then delay else 0)" if "i < length (routes u)" for i
    using run_durations[OF run that] pos by simp
  have first: "duration (hd (routes u)) = of_int (arrivalTime (last (stops (hd (routes u))))) + delay"
    using rule[of 0] assms(2) by (simp add: hd_conv_nth)
  have others: "\<forall>r \<in> set (tl (routes u)). duration r = of_int (arrivalTime (last (stops r)))"
  proof
    fix r assume "r \<in> set (tl (routes u))"
    then obtain j where j: "j < length (tl (routes u))" "r = tl (routes u) ! j"
      by (auto simp add: in_set_conv_nth)
    then have "r = routes u ! Suc j" "Suc j < length (routes u)" by (simp_all add: nth_tl)
    then show "duration r = of_int (arrivalTime (last (stops r)))" using rule[of "Suc j"] by simp
  qed
  obtain r0 rest where sp: "routes u = r0 # rest" using assms(2) by (cases "routes u") auto
  have "sum_list (map duration (routes u))
          = sum_list (map (\<lambda>r. of_int (arrivalTime (last (stops r)))) (routes u)) + delay"
    using first others sp by (simp add: map_idI cong: map_cong)
  then have total: "totalDuration u
          = sum_list (map (\<lambda>r. of_int (arrivalTime (last (stops r)))) (routes u)) + delay"
    using tot by (simp add: sumDuration_sum)
  have "\<exists>rs0. runORToolsOptimization K (optVehicles opt) (optLocations opt) depot 1
          (departureOrDefault (departureTime opt)) (finalIncidentLocation opt req) 0 = Inr rs0
        \<and> map exceptDelay (routes u) = map exceptDelay rs0
        \<and> map duration (routes u) = delayFirst delay (map duration rs0)"
    using run_delay[OF pos, where K=K and vehicles="optVehicles opt" and locations="optLocations opt"
        and depot=depot and m=1 and dep="departureOrDefault (departureTime opt)"
        and ?il0.0="finalIncidentLocation opt req" and il="finalIncidentLocation opt req"] run
    by (auto split: sum.splits)
  then obtain rs0 where
    z: "runORToolsOptimization K (optVehicles opt) (optLocations opt) depot 1
          (departureOrDefault (departureTime opt)) (finalIncidentLocation opt req) 0 = Inr rs0"
    "map exceptDelay (routes u) = map exceptDelay rs0"
    "map duration (routes u) = delayFirst delay (map duration rs0)"
    by blast
  have z0: "\<forall>r \<in> set rs0. duration r = of_int (arrivalTime (last (stops r)))"
  proof
    fix r assume "r \<in> set rs0"
    then obtain j where j: "j < length rs0" "r = rs0 ! j" by (auto simp add: in_set_conv_nth)
    show "duration r = of_int (arrivalTime (last (stops r)))"
      using run_durations[OF z(1) j(1)] j(2) by simp
  qed
  have ne0: "map duration rs0 \<noteq> []"
    using exceptDelay_fields(1)[OF z(2)] assms(2) by auto
  have "sum_list (map duration (routes u)) = sum_list (map duration rs0) + delay"
    unfolding z(3) by (rule sum_delayFirst[OF ne0])
  then have t0: "totalDuration u = sumDuration rs0 + delay"
    using tot by (simp add: sumDuration_sum)
  have "\<exists>depot rs0.
             find isDepot (optLocations opt) = Some depot
           \<and> runORToolsOptimization K (optVehicles opt) (optLocations opt) depot 1
                 (departureOrDefault (departureTime opt)) (finalIncidentLocation opt req) 0 = Inr rs0
           \<and> map stops (routes u) = map stops rs0
           \<and> (\<forall>r \<in> set rs0. duration r = of_int (arrivalTime (last (stops r))))
           \<and> totalDuration u = sumDuration rs0 + delay"
    using dp z(1) exceptDelay_fields(2)[OF z(2)] z0 t0 by blast
  then show ?thesis
    using range first others total unfolding delay_def by blast
qed

theorem C3_delay_on_first_route_witness:
  "rerouteOptimization exK (Some exRun) exRequest = (Json exActiveRun, Some exActiveRun)
   \<and> routes exActiveRun \<noteq> []
   \<and> appliedDelay (askModel exK (reqIncidentType exRequest)
         (orElse (reqAffectedRouteIndex exRequest) 0) (length (routes exRun))) = 60
   \<and> map duration (routes exActiveRun) = [95, 51]
   \<and> duration (hd (routes exActiveRun))
       = of_int (arrivalTime (last (stops (hd (routes exActiveRun))))) + 60
   \<and> totalDuration exActiveRun
       = sum_list (map (\<lambda>r. of_int (arrivalTime (last (stops r)))) (routes exActiveRun)) + 60
   \<and> totalDuration exActiveRun = 146"
proof -
  have ne: "routes exActiveRun \<noteq> []" using ex_shape(2) by (auto simp add: exActiveRun_def)
  have d: "appliedDelay (askModel exK (reqIncidentType exRequest)
         (orElse (reqAffectedRouteIndex exRequest) 0) (length (routes exRun))) = 60"
    by (simp add: exK_def appliedDelay_def)
  have du: "map duration (routes exActiveRun) = [95, 51]" by code_simp
  have t: "totalDuration exActiveRun = 146" by (simp add: exActiveRun_def)
  show ?thesis
    using C3_delay_on_first_route[OF ex_reroute ne] ne d du t ex_reroute by simp
qed

section \<open>The round trip\<close>







section \<open>Stop annotations\<close>


























end
